theory Spec2Isabelle
  imports Complex_Main "HOL-Library.Code_Target_Nat"
begin

section \<open>The number slider field of scratch-blocks\<close>

text \<open>
  The development embeds \<^verbatim>\<open>Blockly.FieldNumberSlider\<close> of
  \<^verbatim>\<open>core/field_number_slider.js\<close>: its constructor, \<^verbatim>\<open>fromJson\<close>, the
  DOM update, the slider synchronisation, the change callback, \<^verbatim>\<open>showEditor_\<close> and
  \<^verbatim>\<open>dispose\<close>, over a model of the JavaScript values they compute with and of the page
  they act on. Isabelle does not accept a name that ends in an underscore, so
  \<^verbatim>\<open>showEditor_\<close> is \<open>showEditor\<close> here, \<^verbatim>\<open>valueSlider_\<close> is \<open>valueSlider\<close>, and so on.
\<close>

subsection \<open>JavaScript values\<close>

text \<open>
  A Number is NaN, an infinity, or a finite value, kept as the exact rational it denotes
  (every finite binary64 value is a rational). The two zeros are not told apart: every
  operation of this file treats \<^verbatim>\<open>-0\<close> as \<^verbatim>\<open>0\<close>.
\<close>

datatype jsnum = NaN | PInf | NInf | Fin rat

text \<open>
  A String is a sequence of UTF-16 code units, each kept as the number it is: the white
  space that \<^verbatim>\<open>Number\<close> and \<^verbatim>\<open>parseFloat\<close> skip lies partly beyond one byte. \<open>units\<close>
  gives the String of an ASCII text.
\<close>

type_synonym jsstring = "nat list"

definition cu :: "char \<Rightarrow> nat" where
  "cu c = of_char c"

definition units :: "string \<Rightarrow> jsstring" where
  "units s = map cu s"

datatype jsval = JUndefined | JNull | JNum jsnum | JStr jsstring

text \<open>\<^verbatim>\<open>ToBoolean\<close>: what \<^verbatim>\<open>&&\<close> and \<^verbatim>\<open>||\<close> test.\<close>

fun truthy :: "jsval \<Rightarrow> bool" where
  "truthy JUndefined = False"
| "truthy JNull = False"
| "truthy (JNum n) = (n \<noteq> NaN \<and> n \<noteq> Fin 0)"
| "truthy (JStr s) = (s \<noteq> [])"

definition jsOr :: "jsval \<Rightarrow> jsval \<Rightarrow> jsval" where
  "jsOr a b = (if truthy a then a else b)"

subsection \<open>The slider of the Closure library\<close>

text \<open>
  A \<^verbatim>\<open>goog.ui.Slider\<close>, as far as the field drives it: the settings the field has made
  (\<open>None\<close>: not set, the library's default stands), the values handed to \<^verbatim>\<open>setValue\<close>,
  in order, and the values the slider took when such a call changed it.
\<close>

record slider =
  sliderId :: nat
  unitIncrement :: "rat option"
  step :: "rat option"
  minimum :: "rat option"
  maximum :: "rat option"
  moveToPointEnabled :: "bool option"
  backgroundColor :: "string option"
  setValueCalls :: "jsnum list"
  changes :: "jsnum list"

definition newSlider :: "nat \<Rightarrow> slider" where
  "newSlider i =
     \<lparr>sliderId = i, unitIncrement = None, step = None, minimum = None, maximum = None,
      moveToPointEnabled = None, backgroundColor = None, setValueCalls = [], changes = []\<rparr>"

subsection \<open>What the program takes from outside\<close>

text \<open>
  Two functions of the ECMAScript host depend on the binary64 grid and are not fixed here:
  \<open>digits\<close>, the shortest round-trip digit string that \<^verbatim>\<open>Number::toString\<close> produces for
  a positive finite value, and \<open>roundMV\<close>, the Number to which the mathematical value of a
  numeric literal is rounded.

  \<open>sliderChange\<close> is \<^verbatim>\<open>goog.ui.Slider.prototype.setValue\<close> of the Closure library: for a
  slider as the field has driven it so far and the value handed over, \<open>Some r\<close> when the
  call changes the slider, \<open>r\<close> being what its \<^verbatim>\<open>getValue()\<close> returns from then on, and
  \<open>None\<close> when the call changes nothing. A call that changes the slider dispatches a
  CHANGE event to the slider's listeners before it returns.

  The other two components are of Blockly:
  \<^verbatim>\<open>Blockly.FieldNumber.prototype.getNumRestrictor\<close>, which is not among the sources, and
  the message \<^verbatim>\<open>Blockly.Msg.VALUE_LABEL\<close>.

  Every theorem holds for whatever these are, unless it says otherwise.
\<close>

record env =
  digits :: "rat \<Rightarrow> jsstring"
  roundMV :: "rat \<Rightarrow> jsnum"
  sliderChange :: "slider \<Rightarrow> jsnum \<Rightarrow> jsnum option"
  getNumRestrictor :: "jsval \<Rightarrow> jsval \<Rightarrow> jsval \<Rightarrow> string"
  VALUE_LABEL :: string

subsection \<open>Numbers to strings\<close>

text \<open>\<^verbatim>\<open>Number::toString\<close> and \<^verbatim>\<open>String(v)\<close>.\<close>

fun numToString :: "env \<Rightarrow> jsnum \<Rightarrow> jsstring" where
  "numToString e NaN = units ''NaN''"
| "numToString e PInf = units ''Infinity''"
| "numToString e NInf = units ''-Infinity''"
| "numToString e (Fin r) =
     (if r = 0 then units ''0''
      else if r < 0 then units ''-'' @ digits e (- r)
      else digits e r)"

fun jsString :: "env \<Rightarrow> jsval \<Rightarrow> jsstring" where
  "jsString e JUndefined = units ''undefined''"
| "jsString e JNull = units ''null''"
| "jsString e (JNum n) = numToString e n"
| "jsString e (JStr s) = s"

subsection \<open>Numeric literals in strings\<close>

text \<open>
  \<^verbatim>\<open>StrWhiteSpaceChar\<close>: the white space of ECMAScript (tab, vertical tab, form feed, the
  byte order mark U+FEFF and the space separators of Unicode: U+0020, U+00A0, U+1680,
  U+2000 to U+200A, U+202F, U+205F, U+3000) and its line terminators (line feed, carriage
  return, U+2028, U+2029).
\<close>

definition isSpace :: "nat \<Rightarrow> bool" where
  "isSpace c =
     (c \<in> {0x09, 0x0B, 0x0C, 0xFEFF, 0x20, 0xA0, 0x1680, 0x202F, 0x205F, 0x3000,
            0x0A, 0x0D, 0x2028, 0x2029}
      \<or> (0x2000 \<le> c \<and> c \<le> 0x200A))"

text \<open>\<^verbatim>\<open>DecimalDigit\<close>: the ten ASCII digits, 0x30 to 0x39.\<close>

definition isDigit :: "nat \<Rightarrow> bool" where
  "isDigit c = (48 \<le> c \<and> c \<le> 57)"

definition digitVal :: "nat \<Rightarrow> nat" where
  "digitVal c = c - 48"

definition digitsVal :: "jsstring \<Rightarrow> nat" where
  "digitsVal s = foldl (\<lambda>a c. 10 * a + digitVal c) 0 s"

definition pow10 :: "int \<Rightarrow> rat" where
  "pow10 k = (if 0 \<le> k then 10 ^ nat k else 1 / 10 ^ nat (- k))"

datatype literal = LInf | LNum rat

text \<open>
  \<^verbatim>\<open>ExponentPart\<close>: \<^verbatim>\<open>e\<close> or \<^verbatim>\<open>E\<close>, an optional sign, at least one digit. Where the part
  is not complete nothing is consumed and the exponent is 0.
\<close>

definition scanExponent :: "jsstring \<Rightarrow> int \<times> jsstring" where
  "scanExponent s =
     (case s of
        [] \<Rightarrow> (0, s)
      | c # t \<Rightarrow>
          if c = cu (CHR ''e'') \<or> c = cu (CHR ''E'') then
            (let neg = (case t of [] \<Rightarrow> False | d # _ \<Rightarrow> d = cu (CHR ''-''));
                 u = (case t of [] \<Rightarrow> t
                      | d # u' \<Rightarrow> if d = cu (CHR ''-'') \<or> d = cu (CHR ''+'') then u' else t);
                 ds = takeWhile isDigit u
             in if ds = [] then (0, s)
                else (if neg then - int (digitsVal ds) else int (digitsVal ds),
                      dropWhile isDigit u))
          else (0, s))"

text \<open>
  The longest prefix that is a \<^verbatim>\<open>StrUnsignedDecimalLiteral\<close>: \<^verbatim>\<open>Infinity\<close>, or digits with
  an optional fraction and exponent (\<^verbatim>\<open>5.\<close> and \<^verbatim>\<open>.5\<close> are literals, \<^verbatim>\<open>.\<close> is not),
  with its mathematical value and the rest of the string.
\<close>

definition scanUnsigned :: "jsstring \<Rightarrow> (literal \<times> jsstring) option" where
  "scanUnsigned s =
     (if take 8 s = units ''Infinity'' then Some (LInf, drop 8 s)
      else
        (let ip = takeWhile isDigit s;
             r1 = dropWhile isDigit s;
             dot = (case r1 of [] \<Rightarrow> False | c # _ \<Rightarrow> c = cu (CHR ''.''));
             fp = (if dot then takeWhile isDigit (tl r1) else []);
             r2 = (if dot then dropWhile isDigit (tl r1) else r1)
         in if ip = [] \<and> fp = [] then None
            else (let (ex, r3) = scanExponent r2
                  in Some (LNum (of_nat (digitsVal (ip @ fp)) / 10 ^ length fp * pow10 ex),
                           r3))))"

definition scanDecimal :: "jsstring \<Rightarrow> (bool \<times> literal \<times> jsstring) option" where
  "scanDecimal s =
     (case s of
        [] \<Rightarrow> None
      | c # t \<Rightarrow>
          if c = cu (CHR ''-'') then map_option (\<lambda>(l, r). (True, l, r)) (scanUnsigned t)
          else if c = cu (CHR ''+'') then map_option (\<lambda>(l, r). (False, l, r)) (scanUnsigned t)
          else map_option (\<lambda>(l, r). (False, l, r)) (scanUnsigned s))"

fun negate :: "jsnum \<Rightarrow> jsnum" where
  "negate NaN = NaN"
| "negate PInf = NInf"
| "negate NInf = PInf"
| "negate (Fin r) = Fin (- r)"

text \<open>
  The Number a signed literal denotes. Rounding is symmetric about 0, so the sign is applied
  to the rounded magnitude.
\<close>

definition litValue :: "env \<Rightarrow> bool \<Rightarrow> literal \<Rightarrow> jsnum" where
  "litValue e neg l =
     (case l of
        LInf \<Rightarrow> (if neg then NInf else PInf)
      | LNum m \<Rightarrow> (if neg then negate (roundMV e m) else roundMV e m))"

text \<open>
  The literals with a radix prefix, which \<^verbatim>\<open>Number(s)\<close> accepts and \<^verbatim>\<open>parseFloat\<close> does
  not: \<^verbatim>\<open>0x\<close>, \<^verbatim>\<open>0o\<close>, \<^verbatim>\<open>0b\<close> and at least one digit of the radix, no sign.
\<close>

definition radixDigit :: "nat \<Rightarrow> nat option" where
  "radixDigit n =
     (if 48 \<le> n \<and> n \<le> 57 then Some (n - 48)
      else if 97 \<le> n \<and> n \<le> 102 then Some (n - 87)
      else if 65 \<le> n \<and> n \<le> 70 then Some (n - 55)
      else None)"

fun radixVal :: "nat \<Rightarrow> nat \<Rightarrow> jsstring \<Rightarrow> nat option" where
  "radixVal b acc [] = Some acc"
| "radixVal b acc (c # cs) =
     (case radixDigit c of
        None \<Rightarrow> None
      | Some d \<Rightarrow> if d < b then radixVal b (b * acc + d) cs else None)"

definition scanRadix :: "jsstring \<Rightarrow> nat option" where
  "scanRadix s =
     (case s of
        z # p # d # ds \<Rightarrow>
          if z \<noteq> cu (CHR ''0'') then None
          else if p = cu (CHR ''x'') \<or> p = cu (CHR ''X'') then radixVal 16 0 (d # ds)
          else if p = cu (CHR ''o'') \<or> p = cu (CHR ''O'') then radixVal 8 0 (d # ds)
          else if p = cu (CHR ''b'') \<or> p = cu (CHR ''B'') then radixVal 2 0 (d # ds)
          else None
      | _ \<Rightarrow> None)"

definition trim :: "jsstring \<Rightarrow> jsstring" where
  "trim s = rev (dropWhile isSpace (rev (dropWhile isSpace s)))"

text \<open>
  \<^verbatim>\<open>StringToNumber\<close>: the trimmed string is empty (the value is 0), or is a decimal literal
  as a whole, or a literal with a radix prefix; anything else is NaN.
\<close>

definition stringToNumber :: "env \<Rightarrow> jsstring \<Rightarrow> jsnum" where
  "stringToNumber e s =
     (let t = trim s
      in if t = [] then Fin 0
         else case scanDecimal t of
                Some (neg, l, []) \<Rightarrow> litValue e neg l
              | _ \<Rightarrow> (case scanRadix t of
                         Some n \<Rightarrow> roundMV e (of_nat n)
                       | None \<Rightarrow> NaN))"

fun toNumber :: "env \<Rightarrow> jsval \<Rightarrow> jsnum" where
  "toNumber e JUndefined = NaN"
| "toNumber e JNull = Fin 0"
| "toNumber e (JNum n) = n"
| "toNumber e (JStr s) = stringToNumber e s"

text \<open>The global \<^verbatim>\<open>isNaN(v)\<close>: \<^verbatim>\<open>v\<close> is cast to a Number first.\<close>

definition jsIsNaN :: "env \<Rightarrow> jsval \<Rightarrow> bool" where
  "jsIsNaN e v = (toNumber e v = NaN)"

text \<open>
  \<^verbatim>\<open>Number.parseFloat\<close>: leading white space is dropped and the longest prefix that is a
  decimal literal is read; there is none, the result is NaN.
\<close>

definition parseFloatStr :: "env \<Rightarrow> jsstring \<Rightarrow> jsnum" where
  "parseFloatStr e s =
     (case scanDecimal (dropWhile isSpace s) of
        None \<Rightarrow> NaN
      | Some (neg, l, _) \<Rightarrow> litValue e neg l)"

text \<open>
  \<^verbatim>\<open>parseFloat\<close> converts its argument to a string and reads that. For a Number the two
  steps give the Number back (\<^verbatim>\<open>Number::toString\<close> round-trips), which is what the
  model returns.
\<close>

definition parseFloat :: "env \<Rightarrow> jsval \<Rightarrow> jsnum" where
  "parseFloat e v = (case v of JNum n \<Rightarrow> n | _ \<Rightarrow> parseFloatStr e (jsString e v))"

subsection \<open>\<^verbatim>\<open>toFixed(1)\<close>\<close>

definition digitChar :: "nat \<Rightarrow> nat" where
  "digitChar d = 48 + d"

fun showNat :: "nat \<Rightarrow> jsstring" where
  "showNat n =
     (if n < 10 then [digitChar n]
      else showNat (n div 10) @ [digitChar (n mod 10)])"

declare showNat.simps [simp del]

text \<open>
  \<^verbatim>\<open>Number.prototype.toFixed\<close> with one fraction digit, step by step: a value that is not
  finite goes through \<^verbatim>\<open>Number::toString\<close>; the sign is split off; from \<open>10^21\<close> on
  \<^verbatim>\<open>Number::toString\<close> again; otherwise \<open>n\<close> is the integer with \<open>n / 10\<close> closest to the
  value, the larger one of two, and \<open>fixedDigits n\<close> writes it in decimal, padded to two
  digits, with the point before the last digit.
\<close>

definition fixedDigits :: "nat \<Rightarrow> jsstring" where
  "fixedDigits n =
     (let m = (if n = 0 then units ''0'' else showNat n);
          m' = (if length m \<le> 1 then replicate (2 - length m) (cu (CHR ''0'')) @ m else m);
          k = length m'
      in take (k - 1) m' @ units ''.'' @ drop (k - 1) m')"

definition toFixed1 :: "env \<Rightarrow> jsnum \<Rightarrow> jsstring" where
  "toFixed1 e x =
     (case x of
        Fin r \<Rightarrow>
          (let s = (if r < 0 then units ''-'' else []);
               a = \<bar>r\<bar>
           in if 10 ^ 21 \<le> a then s @ numToString e (Fin a)
              else s @ fixedDigits (nat \<lfloor>a * 10 + 1 / 2\<rfloor>))
      | _ \<Rightarrow> numToString e x)"

subsection \<open>The field and the page\<close>

datatype error = TypeError

text \<open>
  An operation either completes or throws. A throw keeps the state as the statements before
  it left it, as a JavaScript exception does, and ends the operations that called it.
\<close>

datatype 'a outcome = Done 'a | Thrown error 'a

fun stateOf :: "'a outcome \<Rightarrow> 'a" where
  "stateOf (Done a) = a"
| "stateOf (Thrown er a) = a"

fun andThen :: "'a outcome \<Rightarrow> ('a \<Rightarrow> 'a outcome) \<Rightarrow> 'a outcome" where
  "andThen (Done a) k = k a"
| "andThen (Thrown er a) k = Thrown er a"

text \<open>The readout \<^verbatim>\<open>span\<close> that \<^verbatim>\<open>createLabelDom_\<close> makes.\<close>

record readout =
  readoutId :: nat
  textContent :: jsstring

text \<open>
  The source block, reduced to what the field reads of it: \<^verbatim>\<open>parentBlock_\<close>, which is
  \<open>None\<close> for a block without a parent and otherwise the category that the parent's
  \<^verbatim>\<open>getCategory()\<close> returns (\<open>None\<close> for \<^verbatim>\<open>null\<close>).
\<close>

record block =
  parentBlock :: "string option option"

record field =
  fieldValue :: jsstring
  validator :: "(jsstring \<Rightarrow> jsstring option) option"
  restrictor :: string
  argTypes :: "string list"
  sourceBlock :: "block option"
  valueSlider :: "slider option"
  valueReadout :: "readout option"
  disposed :: bool

text \<open>
  A listener in the registry of \<^verbatim>\<open>goog.events\<close>: its key, the slider it listens to, and
  the field its callback closes over (\<^verbatim>\<open>self\<close>).
\<close>

record listener =
  lkey :: nat
  target :: nat
  self :: nat

text \<open>The children of the content \<^verbatim>\<open>div\<close> of \<^verbatim>\<open>Blockly.DropDownDiv\<close>.\<close>

datatype node = LabelDom string nat | SliderDom nat

text \<open>
  The page: the fields by identity, the counter that object identities are drawn from, the
  listener registry, the two class-level keys \<^verbatim>\<open>Blockly.FieldNumberSlider.valueChangeEventKey_\<close>
  and \<^verbatim>\<open>Blockly.FieldColourSlider.valueChangeEventKey_\<close> (the colour slider is a sibling
  class of the library, not among the sources; its key is whatever that class left
  there), the drop-down and the event group of \<^verbatim>\<open>Blockly.Events\<close>.
\<close>

record world =
  fieldAt :: "nat \<Rightarrow> field option"
  nextId :: nat
  listeners :: "listener list"
  numberKey :: "nat option"
  colourKey :: "nat option"
  content :: "node list"
  visible :: bool
  owner :: "nat option"
  colour :: "(string \<times> string) option"
  category :: "string option"
  group :: string

definition putField :: "nat \<Rightarrow> field \<Rightarrow> world \<Rightarrow> world" where
  "putField fid f w = w\<lparr>fieldAt := (fieldAt w)(fid \<mapsto> f)\<rparr>"

definition fresh :: "world \<Rightarrow> nat \<times> world" where
  "fresh w = (nextId w, w\<lparr>nextId := Suc (nextId w)\<rparr>)"

subsection \<open>The base class\<close>

text \<open>
  Modelled from the spec: the constructor of the host field base class
  (\<^verbatim>\<open>Blockly.FieldNumber\<close> and the classes above it) is not among the sources. The spec has
  the field hold the value it was constructed with; the validator and the restrictor are
  kept as they were handed over.
\<close>

definition Field_constructor ::
    "jsstring \<Rightarrow> (jsstring \<Rightarrow> jsstring option) option \<Rightarrow> string \<Rightarrow> field" where
  "Field_constructor v vd r =
     \<lparr>fieldValue = v, validator = vd, restrictor = r, argTypes = [], sourceBlock = None,
      valueSlider = None, valueReadout = None, disposed = False\<rparr>"

text \<open>Modelled from the spec: \<^verbatim>\<open>addArgType\<close> of the base class, which records the type.\<close>

definition addArgType :: "string \<Rightarrow> field \<Rightarrow> field" where
  "addArgType t f = f\<lparr>argTypes := argTypes f @ [t]\<rparr>"

text \<open>
  Modelled from the spec: \<^verbatim>\<open>setValue\<close>, \<^verbatim>\<open>getValue\<close> and \<^verbatim>\<open>getText\<close> of the base class.
  The spec gives the committed value as the text handed to the setter and the displayed
  text as that value; what a validator would make of a committed text is not modelled.
\<close>

definition setValue :: "jsstring \<Rightarrow> field \<Rightarrow> field" where
  "setValue v f = f\<lparr>fieldValue := v\<rparr>"

definition getValue :: "field \<Rightarrow> jsstring" where
  "getValue f = fieldValue f"

definition getText :: "field \<Rightarrow> jsstring" where
  "getText f = fieldValue f"

subsection \<open>The drop-down, the event group and the listener registry\<close>

text \<open>
  Modelled from the spec: the overlay manager \<^verbatim>\<open>Blockly.DropDownDiv\<close> supplies a content
  container, hiding, showing positioned by an anchor, and theming by colour and category.
\<close>

definition hideWithoutAnimation :: "world \<Rightarrow> world" where
  "hideWithoutAnimation w = w\<lparr>visible := False, owner := None\<rparr>"

definition clearContent :: "world \<Rightarrow> world" where
  "clearContent w = w\<lparr>content := []\<rparr>"

definition appendChild :: "node \<Rightarrow> world \<Rightarrow> world" where
  "appendChild n w = w\<lparr>content := content w @ [n]\<rparr>"

definition setColour :: "string \<Rightarrow> string \<Rightarrow> world \<Rightarrow> world" where
  "setColour c b w = w\<lparr>colour := Some (c, b)\<rparr>"

definition setCategory :: "string option \<Rightarrow> world \<Rightarrow> world" where
  "setCategory c w = w\<lparr>category := c\<rparr>"

definition showPositionedByBlock :: "nat \<Rightarrow> world \<Rightarrow> world" where
  "showPositionedByBlock fid w = w\<lparr>visible := True, owner := Some fid\<rparr>"

text \<open>
  Modelled from the spec: \<^verbatim>\<open>Blockly.Events\<close> is not among the sources, and the spec gives
  disposal no effect through it. The model keeps the current event group, which
  \<^verbatim>\<open>setGroup(false)\<close> ends.
\<close>

definition setGroup :: "bool \<Rightarrow> world \<Rightarrow> world" where
  "setGroup b w = (if b then w else w\<lparr>group := []\<rparr>)"

text \<open>
  \<^verbatim>\<open>goog.events.listen\<close> registers a listener and returns its key, a new object;
  \<^verbatim>\<open>goog.events.unlistenByKey\<close> removes the listener with that key, if there is one.
\<close>

definition listen :: "nat \<Rightarrow> nat \<Rightarrow> world \<Rightarrow> nat \<times> world" where
  "listen sid fid w =
     (nextId w,
      w\<lparr>listeners := listeners w @ [\<lparr>lkey = nextId w, target = sid, self = fid\<rparr>],
        nextId := Suc (nextId w)\<rparr>)"

definition unlistenByKey :: "nat \<Rightarrow> world \<Rightarrow> world" where
  "unlistenByKey k w = w\<lparr>listeners := filter (\<lambda>l. lkey l \<noteq> k) (listeners w)\<rparr>"

text \<open>
  Modelled from the spec: \<^verbatim>\<open>dispose\<close> of the base class, which releases the overlay
  resources: the drop-down is hidden and emptied when this field owns it, and the field is
  marked as disposed.
\<close>

definition Field_dispose :: "nat \<Rightarrow> field \<Rightarrow> world \<Rightarrow> world" where
  "Field_dispose fid f w =
     putField fid (f\<lparr>disposed := True\<rparr>)
       (if owner w = Some fid then clearContent (hideWithoutAnimation w) else w)"

subsection \<open>\<^verbatim>\<open>Blockly.FieldNumberSlider\<close>\<close>

text \<open>The constructor (lines 58 to 64).\<close>

definition FieldNumberSlider ::
    "env \<Rightarrow> jsval \<Rightarrow> jsval \<Rightarrow> jsval \<Rightarrow> jsval \<Rightarrow> (jsstring \<Rightarrow> jsstring option) option \<Rightarrow> field"
  where
  "FieldNumberSlider e opt_value opt_min opt_max opt_precision opt_validator =
     (let numRestrictor = getNumRestrictor e opt_min opt_max opt_precision;
          opt_value' = (if truthy opt_value \<and> \<not> jsIsNaN e opt_value
                        then jsString e opt_value else units ''0'')
      in addArgType ''number'' (Field_constructor opt_value' opt_validator numRestrictor))"

text \<open>\<^verbatim>\<open>fromJson\<close>: a key that the options lack reads as \<^verbatim>\<open>undefined\<close>.\<close>

definition jsGet :: "(string \<Rightarrow> jsval option) \<Rightarrow> string \<Rightarrow> jsval" where
  "jsGet options k = (case options k of None \<Rightarrow> JUndefined | Some v \<Rightarrow> v)"

definition fromJson :: "env \<Rightarrow> (string \<Rightarrow> jsval option) \<Rightarrow> field" where
  "fromJson e options =
     FieldNumberSlider e (jsGet options ''value'') (jsGet options ''min'')
       (jsGet options ''max'') (jsGet options ''precision'') None"

text \<open>
  \<^verbatim>\<open>updateDom_\<close> (lines 85 to 91). Writing \<^verbatim>\<open>textContent\<close> of a readout that is not there
  is a TypeError.
\<close>

definition updateDom :: "field \<Rightarrow> field outcome" where
  "updateDom f =
     (case valueSlider f of
        None \<Rightarrow> Done f
      | Some _ \<Rightarrow>
          (case valueReadout f of
             None \<Rightarrow> Thrown TypeError f
           | Some r \<Rightarrow> Done (f\<lparr>valueReadout := Some (r\<lparr>textContent := getText f\<rparr>)\<rparr>)))"

text \<open>\<^verbatim>\<open>createLabelDom_\<close> (lines 115 to 126): the container node and the readout node.\<close>

definition createLabelDom :: "string \<Rightarrow> nat \<Rightarrow> node \<times> readout" where
  "createLabelDom labelText i = (LabelDom labelText i, \<lparr>readoutId = i, textContent = []\<rparr>)"

text \<open>
  The callback that \<^verbatim>\<open>sliderCallbackFactory_\<close> returns (lines 133 to 143), run on the field
  it closes over, with \<open>x\<close> what \<^verbatim>\<open>event.target.getValue()\<close> returns.
\<close>

definition sliderCallback :: "env \<Rightarrow> jsval \<Rightarrow> field \<Rightarrow> field outcome" where
  "sliderCallback e x f =
     (if x \<noteq> JNull
      then updateDom (setValue (toFixed1 e (parseFloat e (jsOr x (JNum (Fin 0))))) f)
      else Done f)"

text \<open>A method run on the field with a given identity; there is no such field, it throws.\<close>

definition onField :: "nat \<Rightarrow> (field \<Rightarrow> field outcome) \<Rightarrow> world \<Rightarrow> world outcome" where
  "onField fid m w =
     (case fieldAt w fid of
        None \<Rightarrow> Thrown TypeError w
      | Some f \<Rightarrow>
          (case m f of
             Done f' \<Rightarrow> Done (putField fid f' w)
           | Thrown er f' \<Rightarrow> Thrown er (putField fid f' w)))"

text \<open>
  A change event of the slider \<open>sid\<close>: the callbacks of the listeners registered on that
  slider run in the order of registration; a throw ends the dispatch.
\<close>

fun fireListeners :: "env \<Rightarrow> listener list \<Rightarrow> jsval \<Rightarrow> world \<Rightarrow> world outcome" where
  "fireListeners e [] x w = Done w"
| "fireListeners e (l # ls) x w =
     (case onField (self l) (sliderCallback e x) w of
        Done w' \<Rightarrow> fireListeners e ls x w'
      | Thrown er w' \<Rightarrow> Thrown er w')"

definition listenersOn :: "nat \<Rightarrow> world \<Rightarrow> listener list" where
  "listenersOn sid w = filter (\<lambda>l. target l = sid) (listeners w)"

definition dispatchChange :: "env \<Rightarrow> nat \<Rightarrow> jsval \<Rightarrow> world \<Rightarrow> world outcome" where
  "dispatchChange e sid x w = fireListeners e (listenersOn sid w) x w"

text \<open>
  \<^verbatim>\<open>this.valueSlider_.setValue(v)\<close>: the slider records the value handed over; when the
  library changes the slider, it takes the new value and the change event is dispatched,
  with that value, before the call returns, so the callbacks run inside the call and a
  throw of theirs leaves through it.
\<close>

definition sliderSetValue :: "env \<Rightarrow> nat \<Rightarrow> jsnum \<Rightarrow> world \<Rightarrow> world outcome" where
  "sliderSetValue e fid v w =
     (case fieldAt w fid of
        None \<Rightarrow> Thrown TypeError w
      | Some f \<Rightarrow>
          (case valueSlider f of
             None \<Rightarrow> Thrown TypeError w
           | Some s \<Rightarrow>
               (case sliderChange e s v of
                  None \<Rightarrow>
                    Done (putField fid
                      (f\<lparr>valueSlider := Some (s\<lparr>setValueCalls := setValueCalls s @ [v]\<rparr>)\<rparr>) w)
                | Some r \<Rightarrow>
                    dispatchChange e (sliderId s) (JNum r)
                      (putField fid
                        (f\<lparr>valueSlider := Some (s\<lparr>setValueCalls := setValueCalls s @ [v],
                                                    changes := changes s @ [r]\<rparr>)\<rparr>) w))))"

text \<open>
  \<^verbatim>\<open>updateSliderHandles_\<close> (lines 97 to 107). \<^verbatim>\<open>num\<close> is read once, before the slider is
  touched; \<^verbatim>\<open>num == 0\<close> holds for the zeros only.
\<close>

definition updateSliderHandles :: "env \<Rightarrow> nat \<Rightarrow> world \<Rightarrow> world outcome" where
  "updateSliderHandles e fid w =
     (case fieldAt w fid of
        None \<Rightarrow> Thrown TypeError w
      | Some f \<Rightarrow>
          (case valueSlider f of
             None \<Rightarrow> Done w
           | Some s \<Rightarrow>
               (let num = parseFloat e (JStr (getValue f))
                in andThen (if num = Fin 0 then sliderSetValue e fid (Fin 1) w else Done w)
                     (sliderSetValue e fid num))))"

text \<open>
  \<^verbatim>\<open>showEditor_\<close> (lines 149 to 177). Reading \<^verbatim>\<open>parentBlock_\<close> of a missing source block,
  or calling \<^verbatim>\<open>getCategory\<close> on a missing parent, is a TypeError; by then the slider is
  built and its listener registered. The synchronisation of line 175 runs with that
  listener in place, so what it makes the slider do is committed by the callback.
\<close>

definition showEditor :: "env \<Rightarrow> nat \<Rightarrow> world \<Rightarrow> world outcome" where
  "showEditor e fid w =
     (case fieldAt w fid of
        None \<Rightarrow> Thrown TypeError w
      | Some f \<Rightarrow>
          (let w1 = clearContent (hideWithoutAnimation w);
               (rid, w2) = fresh w1;
               labelDom = createLabelDom (VALUE_LABEL e) rid;
               w3 = appendChild (fst labelDom) w2;
               f1 = f\<lparr>valueReadout := Some (snd labelDom)\<rparr>;
               (sid, w4) = fresh w3;
               s = (newSlider sid)\<lparr>unitIncrement := Some (1 / 10)\<rparr>;
               s = s\<lparr>step := Some (1 / 10)\<rparr>;
               s = s\<lparr>minimum := Some (- 1)\<rparr>;
               s = s\<lparr>maximum := Some 1\<rparr>;
               s = s\<lparr>moveToPointEnabled := Some True\<rparr>;
               w5 = appendChild (SliderDom sid) w4;
               s = s\<lparr>backgroundColor := Some ''#EEEEEE''\<rparr>;
               f2 = f1\<lparr>valueSlider := Some s\<rparr>;
               (k, w6) = listen sid fid w5;
               w7 = w6\<lparr>numberKey := Some k\<rparr>;
               w8 = putField fid f2 (setColour ''#ffffff'' ''#dddddd'' w7)
           in case sourceBlock f2 of
                None \<Rightarrow> Thrown TypeError w8
              | Some b \<Rightarrow>
                  (case parentBlock b of
                     None \<Rightarrow> Thrown TypeError w8
                   | Some cat \<Rightarrow>
                       andThen
                         (updateSliderHandles e fid
                            (showPositionedByBlock fid (setCategory cat w8)))
                         (onField fid updateDom))))"

text \<open>
  \<^verbatim>\<open>dispose\<close> (lines 179 to 185). The key it reads and unlistens is the colour slider's,
  \<^verbatim>\<open>Blockly.FieldColourSlider.valueChangeEventKey_\<close>, as the source has it.
\<close>

definition dispose :: "nat \<Rightarrow> world \<Rightarrow> world outcome" where
  "dispose fid w =
     (case fieldAt w fid of
        None \<Rightarrow> Thrown TypeError w
      | Some f \<Rightarrow>
          (let w1 = (case colourKey w of Some k \<Rightarrow> unlistenByKey k w | None \<Rightarrow> w);
               w2 = setGroup False w1
           in Done (Field_dispose fid f w2)))"

subsection \<open>Lifetimes\<close>

text \<open>
  What happens to the fields of a page: the editor constructs a field and attaches it to its
  block, a field is opened, one of the sliders fires a change event with a value (the user
  moves it), a field is disposed. An action that throws leaves the page as the throw left
  it.
\<close>

datatype action =
    Create nat jsval jsval jsval jsval "block option"
  | Open nat
  | Change nat jsval
  | Dispose nat

fun perform :: "env \<Rightarrow> action \<Rightarrow> world \<Rightarrow> world" where
  "perform e (Create fid v mn mx pr sb) w =
     putField fid ((FieldNumberSlider e v mn mx pr None)\<lparr>sourceBlock := sb\<rparr>) w"
| "perform e (Open fid) w = stateOf (showEditor e fid w)"
| "perform e (Change sid x) w = stateOf (dispatchChange e sid x w)"
| "perform e (Dispose fid) w = stateOf (dispose fid w)"

fun performAll :: "env \<Rightarrow> action list \<Rightarrow> world \<Rightarrow> world" where
  "performAll e [] w = w"
| "performAll e (a # as) w = performAll e as (perform e a w)"

fun disposeMany :: "nat list \<Rightarrow> world \<Rightarrow> world" where
  "disposeMany [] w = w"
| "disposeMany (c # cs) w = disposeMany cs (stateOf (dispose c w))"

text \<open>
  What \<^verbatim>\<open>event.target.getValue()\<close> of a slider can be: a Number, or nothing (\<^verbatim>\<open>null\<close>,
  \<^verbatim>\<open>undefined\<close>); never a string.
\<close>

definition sliderValue :: "jsval \<Rightarrow> bool" where
  "sliderValue x = (case x of JStr s \<Rightarrow> False | _ \<Rightarrow> True)"

fun sliderAction :: "action \<Rightarrow> bool" where
  "sliderAction (Change sid x) = sliderValue x"
| "sliderAction _ = True"

subsection \<open>Conditions on the page and on the host\<close>

text \<open>
  Identities come from the counter: every key and every slider the registry mentions, and
  the key the colour slider holds, were drawn before, so the next ones are new.
\<close>

definition allocated :: "world \<Rightarrow> bool" where
  "allocated w =
     (list_all (\<lambda>l. lkey l < nextId w \<and> target l < nextId w) (listeners w) \<and>
      (case colourKey w of None \<Rightarrow> True | Some k \<Rightarrow> k < nextId w))"

text \<open>
  An unsigned decimal literal read as a whole, which begins and ends with a digit. Every
  string that \<^verbatim>\<open>Number::toString\<close> gives for a positive finite value is one (\<^verbatim>\<open>12\<close>,
  \<^verbatim>\<open>0.5\<close>, \<^verbatim>\<open>1e+21\<close>).
\<close>

definition plainLiteral :: "jsstring \<Rightarrow> bool" where
  "plainLiteral s =
     (s \<noteq> [] \<and> isDigit (hd s) \<and> isDigit (last s) \<and>
      (case scanUnsigned s of None \<Rightarrow> False | Some (l, r) \<Rightarrow> r = []))"

text \<open>
  What every ECMAScript host guarantees of the two functions left open: rounding a
  literal's value never gives NaN, and the digit string of a positive finite value is
  such a literal.
\<close>

definition hostSound :: "env \<Rightarrow> bool" where
  "hostSound e = ((\<forall>q. roundMV e q \<noteq> NaN) \<and> (\<forall>r. 0 < r \<longrightarrow> plainLiteral (digits e r)))"

definition numericText :: "env \<Rightarrow> jsstring \<Rightarrow> bool" where
  "numericText e s = (\<not> jsIsNaN e (JStr s))"

definition valuesNumeric :: "env \<Rightarrow> world \<Rightarrow> bool" where
  "valuesNumeric e w = (\<forall>g f. fieldAt w g = Some f \<longrightarrow> numericText e (fieldValue f))"

subsection \<open>\<^verbatim>\<open>showEditor_\<close> up to the synchronisation\<close>

text \<open>
  The field and the page as lines 150 to 171 leave them (readout and slider new, the
  listener registered, its key stored), and the page as lines 172 and 173 leave it when the
  category lookup succeeds (the drop-down shown).
\<close>

definition openedField :: "nat \<Rightarrow> field \<Rightarrow> field" where
  "openedField n f =
     f\<lparr>valueReadout := Some \<lparr>readoutId = n, textContent = []\<rparr>,
       valueSlider := Some \<lparr>sliderId = Suc n, unitIncrement = Some (1 / 10),
          step = Some (1 / 10), minimum = Some (- 1), maximum = Some 1,
          moveToPointEnabled = Some True, backgroundColor = Some ''#EEEEEE'',
          setValueCalls = [], changes = []\<rparr>\<rparr>"

definition openedPage :: "env \<Rightarrow> nat \<Rightarrow> world \<Rightarrow> world" where
  "openedPage e fid w =
     w\<lparr>nextId := nextId w + 3,
       listeners := listeners w @ [\<lparr>lkey = nextId w + 2, target = Suc (nextId w), self = fid\<rparr>],
       numberKey := Some (nextId w + 2),
       content := [LabelDom (VALUE_LABEL e) (nextId w), SliderDom (Suc (nextId w))],
       visible := False, owner := None,
       colour := Some (''#ffffff'', ''#dddddd'')\<rparr>"

definition shownPage :: "env \<Rightarrow> nat \<Rightarrow> string option \<Rightarrow> world \<Rightarrow> world" where
  "shownPage e fid cat w =
     (openedPage e fid w)\<lparr>category := cat, visible := True, owner := Some fid\<rparr>"

text \<open>The slider after one \<^verbatim>\<open>setValue\<close>.\<close>

definition sliderStep :: "env \<Rightarrow> jsnum \<Rightarrow> slider \<Rightarrow> slider" where
  "sliderStep e v s =
     s\<lparr>setValueCalls := setValueCalls s @ [v],
       changes := (case sliderChange e s v of None \<Rightarrow> changes s | Some r \<Rightarrow> changes s @ [r])\<rparr>"

subsection \<open>What the callbacks leave alone\<close>

text \<open>
  A change callback writes the field's value and the readout's text, nothing else:
  \<open>textless\<close> blanks the two. \<open>bare\<close> blanks the slider's record of calls as well, which
  is all that the synchronisation adds. \<open>forgetRestrictor\<close> blanks the restrictor, which no
  operation of the field reads.
\<close>

definition textless :: "field \<Rightarrow> field" where
  "textless f =
     f\<lparr>fieldValue := [],
       valueReadout := map_option (\<lambda>r. r\<lparr>textContent := []\<rparr>) (valueReadout f)\<rparr>"

definition callless :: "field \<Rightarrow> field" where
  "callless f =
     f\<lparr>valueSlider := map_option (\<lambda>s. s\<lparr>setValueCalls := [], changes := []\<rparr>) (valueSlider f)\<rparr>"

definition overFields :: "(field \<Rightarrow> field) \<Rightarrow> world \<Rightarrow> world" where
  "overFields h w = w\<lparr>fieldAt := (\<lambda>g. map_option h (fieldAt w g))\<rparr>"

definition bare :: "world \<Rightarrow> world" where
  "bare w = overFields (\<lambda>f. callless (textless f)) w"

definition forgetRestrictor :: "field \<Rightarrow> field" where
  "forgetRestrictor f = f\<lparr>restrictor := []\<rparr>"

text \<open>A function applied to the state an operation ends in; whether an operation completed.\<close>

fun mapOutcome :: "('a \<Rightarrow> 'a) \<Rightarrow> 'a outcome \<Rightarrow> 'a outcome" where
  "mapOutcome h (Done a) = Done (h a)"
| "mapOutcome h (Thrown er a) = Thrown er (h a)"

fun completes :: "'a outcome \<Rightarrow> bool" where
  "completes (Done a) = True"
| "completes (Thrown er a) = False"

subsection \<open>A sample host and a sample page\<close>

text \<open>
  A host with exact decimal arithmetic: a literal's value is kept as it is, and a positive
  value is written with its integer part and up to 17 fraction digits.
\<close>

fun fracDigits :: "nat \<Rightarrow> rat \<Rightarrow> jsstring" where
  "fracDigits 0 x = []"
| "fracDigits (Suc n) x =
     (if x = 0 then []
      else digitChar (nat \<lfloor>x * 10\<rfloor>) # fracDigits n (frac (x * 10)))"

definition plainDigits :: "rat \<Rightarrow> jsstring" where
  "plainDigits r =
     showNat (nat \<lfloor>r\<rfloor>) @ (if frac r = 0 then [] else units ''.'' @ fracDigits 17 (frac r))"

text \<open>
  The slider of the Closure library, in exact arithmetic: it starts at 0; the value handed
  over is rounded to the step, counted from the minimum; a rounded value outside the range
  is ignored, as is one the slider has already; NaN and the infinities are outside every
  range.
\<close>

definition closureSlider :: "slider \<Rightarrow> jsnum \<Rightarrow> jsnum option" where
  "closureSlider s v =
     (case v of
        Fin x \<Rightarrow>
          (let mn = (case minimum s of None \<Rightarrow> 0 | Some m \<Rightarrow> m);
               mx = (case maximum s of None \<Rightarrow> 100 | Some m \<Rightarrow> m);
               st = (case step s of None \<Rightarrow> 1 | Some t \<Rightarrow> t);
               r = mn + of_int \<lfloor>(x - mn) / st + 1 / 2\<rfloor> * st;
               now = (if changes s = [] then Fin 0 else last (changes s))
           in if st \<noteq> 0 \<and> mn \<le> r \<and> r \<le> mx \<and> Fin r \<noteq> now then Some (Fin r) else None)
      | _ \<Rightarrow> None)"

definition demoEnv :: env where
  "demoEnv = \<lparr>digits = plainDigits, roundMV = Fin, sliderChange = closureSlider,
              getNumRestrictor = (\<lambda>mn mx pr. ''[0-9.-]''), VALUE_LABEL = ''Value''\<rparr>"

definition demoBlock :: block where
  "demoBlock = \<lparr>parentBlock = Some (Some ''motion'')\<rparr>"

definition demoField :: "jsval \<Rightarrow> field" where
  "demoField v = (FieldNumberSlider demoEnv v JUndefined JUndefined JUndefined None)
                   \<lparr>sourceBlock := Some demoBlock\<rparr>"

definition demoBounded :: field where
  "demoBounded = (FieldNumberSlider demoEnv (JStr (units ''0.5'')) (JNum (Fin 5)) (JNum (Fin 10))
                    (JNum (Fin 1)) None)\<lparr>sourceBlock := Some demoBlock\<rparr>"

text \<open>
  Three fields on a page where the colour slider was opened before (its key is 7) and ten
  identities are taken.
\<close>

definition demoWorld :: world where
  "demoWorld =
     \<lparr>fieldAt = [0 \<mapsto> demoField (JStr (units ''0.5'')), 1 \<mapsto> demoField (JNum (Fin 0)),
                 2 \<mapsto> demoBounded],
      nextId = 10, listeners = [], numberKey = None, colourKey = Some 7, content = [],
      visible = False, owner = None, colour = None, category = None, group = []\<rparr>"

text \<open>
  A field is constructed from \<^verbatim>\<open>Infinity\<close>; field 1, which holds \<^verbatim>\<open>"0"\<close>, is opened (its
  slider is 11), changed to 0.3, sent a \<^verbatim>\<open>null\<close> event, disposed, and sent NaN by the slider
  that is still listened to.
\<close>

definition demoActions :: "action list" where
  "demoActions =
     [Create 3 (JNum PInf) JUndefined JUndefined JUndefined (Some demoBlock),
      Open 1, Change 11 (JNum (Fin (3 / 10))), Change 11 JNull, Dispose 1,
      Change 11 (JNum NaN)]"

section \<open>Properties\<close>

subsection \<open>Digits and literals\<close>

lemma floor_rat_numeral [simp]:
  "\<lfloor>numeral a / numeral b :: rat\<rfloor> = numeral a div numeral b"
  by (metis floor_divide_of_int_eq of_int_numeral)

lemma toFixed1_zero: "toFixed1 e (Fin 0) = units ''0.0''"
  by (simp add: toFixed1_def fixedDigits_def units_def)

lemma isDigit_digitChar: "d < 10 \<Longrightarrow> isDigit (digitChar d)"
  by (simp add: isDigit_def digitChar_def)

lemma digit_not_space: "isDigit c \<Longrightarrow> \<not> isSpace c"
  by (auto simp: isDigit_def isSpace_def)

lemma showNat_digits: "\<forall>c \<in> set (showNat n). isDigit c"
proof (induction n rule: showNat.induct)
  case (1 n)
  show ?case
  proof (cases "n < 10")
    case True
    then show ?thesis by (subst showNat.simps) (simp add: isDigit_digitChar)
  next
    case False
    then show ?thesis using 1 by (subst showNat.simps) (simp add: isDigit_digitChar)
  qed
qed

lemma showNat_nonempty: "showNat n \<noteq> []"
  by (subst showNat.simps) simp

lemma trim_plain:
  assumes "s \<noteq> []" and "\<not> isSpace (hd s)" and "\<not> isSpace (last s)"
  shows "trim s = s"
proof -
  have a: "dropWhile isSpace s = s" using assms(1,2) by (cases s) auto
  have "rev s \<noteq> []" "hd (rev s) = last s" using assms(1) by (simp_all add: hd_rev)
  then have "\<not> isSpace (hd (rev s))" using assms(3) by simp
  with \<open>rev s \<noteq> []\<close> have "dropWhile isSpace (rev s) = rev s" by (cases "rev s") auto
  with a show ?thesis by (simp add: trim_def)
qed

lemma negate_NaN: "negate x = NaN \<longleftrightarrow> x = NaN"
  by (cases x) auto

lemma plainLiteral_number:
  assumes "plainLiteral s" and "\<forall>q. roundMV e q \<noteq> NaN"
  shows "stringToNumber e s \<noteq> NaN" and "stringToNumber e (cu (CHR ''-'') # s) \<noteq> NaN"
proof -
  from assms(1) obtain l where sc: "scanUnsigned s = Some (l, [])"
    and ne: "s \<noteq> []" and h: "isDigit (hd s)" and la: "isDigit (last s)"
    by (auto simp: plainLiteral_def split: option.splits)
  have t1: "trim s = s" using ne h la by (intro trim_plain) (auto dest: digit_not_space)
  have t2: "trim (cu (CHR ''-'') # s) = cu (CHR ''-'') # s"
    using ne la by (intro trim_plain) (auto dest: digit_not_space simp: isSpace_def cu_def)
  have nosign: "hd s \<noteq> cu (CHR ''-'')" "hd s \<noteq> cu (CHR ''+'')"
    using h by (auto simp: isDigit_def cu_def)
  have lv: "litValue e b l \<noteq> NaN" for b
    using assms(2) by (cases l) (auto simp: litValue_def negate_NaN)
  from ne nosign sc have d1: "scanDecimal s = Some (False, l, [])"
    by (cases s) (auto simp: scanDecimal_def)
  from sc have d2: "scanDecimal (cu (CHR ''-'') # s) = Some (True, l, [])"
    by (simp add: scanDecimal_def)
  show "stringToNumber e s \<noteq> NaN"
    using ne lv by (simp add: stringToNumber_def t1 d1)
  show "stringToNumber e (cu (CHR ''-'') # s) \<noteq> NaN"
    using lv by (simp add: stringToNumber_def t2 d2)
qed

lemma not_infinity: "s \<noteq> [] \<Longrightarrow> isDigit (hd s) \<Longrightarrow> take 8 s \<noteq> units ''Infinity''"
  by (cases s) (auto simp: isDigit_def cu_def units_def)

lemma scan_point:
  assumes "a \<noteq> []" and "\<forall>c \<in> set a. isDigit c" and "\<forall>c \<in> set b. isDigit c"
  shows "\<exists>m. scanUnsigned (a @ cu (CHR ''.'') # b) = Some (LNum m, [])"
proof -
  have nd: "\<not> isDigit (cu (CHR ''.''))" by (simp add: isDigit_def cu_def)
  have h: "isDigit (hd (a @ cu (CHR ''.'') # b))" using assms(1,2) by (cases a) auto
  have ni: "take 8 (a @ cu (CHR ''.'') # b) \<noteq> units ''Infinity''"
    using h by (intro not_infinity) auto
  have tw: "takeWhile isDigit (a @ cu (CHR ''.'') # b) = a"
    using assms(2) nd by (simp add: takeWhile_append2)
  have dw: "dropWhile isDigit (a @ cu (CHR ''.'') # b) = cu (CHR ''.'') # b"
    using assms(2) nd by (simp add: dropWhile_append2)
  have tb: "takeWhile isDigit b = b" "dropWhile isDigit b = []"
    using assms(3) by (simp_all add: takeWhile_eq_all_conv)
  show ?thesis
    using ni assms(1) by (simp add: scanUnsigned_def tw dw tb Let_def scanExponent_def)
qed

lemma scan_int:
  assumes "a \<noteq> []" and "\<forall>c \<in> set a. isDigit c"
  shows "\<exists>m. scanUnsigned a = Some (LNum m, [])"
proof -
  have h: "isDigit (hd a)" using assms by (cases a) auto
  have ni: "take 8 a \<noteq> units ''Infinity''" using h assms(1) by (intro not_infinity) auto
  have tb: "takeWhile isDigit a = a" "dropWhile isDigit a = []"
    using assms(2) by (simp_all add: takeWhile_eq_all_conv)
  show ?thesis
    using ni assms(1) by (simp add: scanUnsigned_def tb Let_def scanExponent_def)
qed

lemma plainLiteral_point:
  assumes "a \<noteq> []" and "\<forall>c \<in> set a. isDigit c" and "b \<noteq> []" and "\<forall>c \<in> set b. isDigit c"
  shows "plainLiteral (a @ cu (CHR ''.'') # b)"
proof -
  from scan_point[OF assms(1,2,4)] obtain m where
    "scanUnsigned (a @ cu (CHR ''.'') # b) = Some (LNum m, [])" by blast
  moreover have "isDigit (hd (a @ cu (CHR ''.'') # b))" using assms(1,2) by (cases a) auto
  moreover have "isDigit (last (a @ cu (CHR ''.'') # b))" using assms(3,4) by simp
  ultimately show ?thesis by (simp add: plainLiteral_def)
qed

lemma plainLiteral_int:
  assumes "a \<noteq> []" and "\<forall>c \<in> set a. isDigit c"
  shows "plainLiteral a"
proof -
  from scan_int[OF assms] obtain m where "scanUnsigned a = Some (LNum m, [])" by blast
  moreover have "isDigit (hd a)" "isDigit (last a)" using assms by (cases a; auto)+
  ultimately show ?thesis using assms(1) by (simp add: plainLiteral_def)
qed

lemma numericText_plain:
  assumes "hostSound e" and "plainLiteral s" and "neg = [] \<or> neg = units ''-''"
  shows "numericText e (neg @ s)"
  using assms(3) plainLiteral_number[OF assms(2), of e] assms(1)
  by (auto simp: numericText_def jsIsNaN_def hostSound_def units_def)

lemma fixed_digits:
  "\<exists>a d. fixedDigits n = a @ cu (CHR ''.'') # [d] \<and>
          a \<noteq> [] \<and> (\<forall>c \<in> set a. isDigit c) \<and> isDigit d"
proof -
  define m where "m = (if n = 0 then units ''0'' else showNat n)"
  define m' where "m' = (if length m \<le> 1 then replicate (2 - length m) (cu (CHR ''0'')) @ m else m)"
  have z: "isDigit (cu (CHR ''0''))" by (simp add: isDigit_def cu_def)
  have md: "\<forall>c \<in> set m. isDigit c" "m \<noteq> []"
    using showNat_digits[of n] showNat_nonempty[of n] z by (auto simp: m_def units_def)
  have m'd: "\<forall>c \<in> set m'. isDigit c" using md z by (auto simp: m'_def)
  have "1 \<le> length m" using md(2) by (cases m) auto
  then have len: "2 \<le> length m'" by (auto simp: m'_def)
  have dr: "drop (length m' - 1) m' = [last m']"
    using len by (metis One_nat_def append_butlast_last_id append_eq_conv_conj length_butlast
        length_greater_0_conv not_numeral_le_zero order.strict_trans2 pos2 take_eq_Nil
        zero_less_diff list.size(3))
  have tk: "take (length m' - 1) m' \<noteq> []" using len by auto
  have td: "\<forall>c \<in> set (take (length m' - 1) m'). isDigit c"
    using m'd by (meson in_set_takeD)
  have ld: "isDigit (last m')"
    using m'd len by (metis last_in_set list.size(3) not_numeral_le_zero)
  have "take (length m' - 1) m' @ units ''.'' @ drop (length m' - 1) m' =
          take (length m' - 1) m' @ cu (CHR ''.'') # [last m'] \<and>
        take (length m' - 1) m' \<noteq> [] \<and> (\<forall>c \<in> set (take (length m' - 1) m'). isDigit c) \<and>
        isDigit (last m')"
    using tk dr td ld by (simp add: units_def)
  then show ?thesis
    unfolding fixedDigits_def Let_def m_def m'_def by blast
qed

lemma numericText_infinity:
  "numericText e (units ''Infinity'')" "numericText e (units ''-Infinity'')"
  "hostSound e \<Longrightarrow> numericText e (units ''0'')"
proof -
  show "numericText e (units ''Infinity'')"
    by (simp add: numericText_def jsIsNaN_def stringToNumber_def trim_def isSpace_def
        units_def cu_def scanDecimal_def scanUnsigned_def litValue_def)
  show "numericText e (units ''-Infinity'')"
    by (simp add: numericText_def jsIsNaN_def stringToNumber_def trim_def isSpace_def
        units_def cu_def scanDecimal_def scanUnsigned_def litValue_def)
  show "numericText e (units ''0'')" if "hostSound e"
    using that
    by (simp add: numericText_def jsIsNaN_def stringToNumber_def trim_def isSpace_def
        units_def cu_def scanDecimal_def scanUnsigned_def litValue_def
        scanExponent_def isDigit_def digitsVal_def digitVal_def pow10_def hostSound_def)
qed

lemma toFixed1_numeric:
  assumes "hostSound e" and "x \<noteq> NaN"
  shows "numericText e (toFixed1 e x)"
proof (cases x)
  case (Fin r)
  let ?s = "if r < 0 then units ''-'' else []"
  have sg: "?s = [] \<or> ?s = units ''-''" by simp
  show ?thesis
  proof (cases "10 ^ 21 \<le> \<bar>r\<bar>")
    case True
    have "(0::rat) < 10 ^ 21" by simp
    from this True have pos: "0 < \<bar>r\<bar>" by (rule less_le_trans)
    then have "plainLiteral (digits e \<bar>r\<bar>)" using assms(1) by (simp add: hostSound_def)
    from numericText_plain[OF assms(1) this sg] True pos show ?thesis
      by (simp add: Fin toFixed1_def Let_def)
  next
    case False
    obtain a d where ad:
      "fixedDigits (nat \<lfloor>\<bar>r\<bar> * 10 + 1 / 2\<rfloor>) = a @ cu (CHR ''.'') # [d]"
      "a \<noteq> []" "\<forall>c \<in> set a. isDigit c" "isDigit d"
      using fixed_digits[of "nat \<lfloor>\<bar>r\<bar> * 10 + 1 / 2\<rfloor>"] by blast
    have "plainLiteral (a @ cu (CHR ''.'') # [d])"
      using ad(2,3,4) by (intro plainLiteral_point) auto
    from numericText_plain[OF assms(1) this sg] False ad(1) show ?thesis
      by (simp add: Fin toFixed1_def Let_def)
  qed
qed (use assms in \<open>simp_all add: toFixed1_def numericText_infinity\<close>)

lemma parse_number: "x \<noteq> JNull \<Longrightarrow> (\<forall>s. x \<noteq> JStr s) \<Longrightarrow>
    parseFloat e (jsOr x (JNum (Fin 0))) \<noteq> NaN"
  by (cases x) (auto simp: jsOr_def parseFloat_def)

subsection \<open>The operations\<close>

lemma updateDom_value: "fieldValue (stateOf (updateDom f)) = fieldValue f"
  by (simp add: updateDom_def split: option.splits)

lemma putField_same: "fieldAt w fid = Some f \<Longrightarrow> putField fid f w = w"
  by (simp add: putField_def fun_upd_idem)

lemma fireListeners_null:
  "(\<forall>l \<in> set ls. fieldAt w (self l) \<noteq> None) \<Longrightarrow> fireListeners e ls JNull w = Done w"
  by (induction ls) (auto simp: onField_def sliderCallback_def putField_same)

lemmas page_defs = clearContent_def hideWithoutAnimation_def appendChild_def setColour_def
  setCategory_def showPositionedByBlock_def fresh_def listen_def createLabelDom_def
  newSlider_def

lemma stateOf_andThen:
  "stateOf (andThen a k) = (case a of Done w \<Rightarrow> stateOf (k w) | Thrown er w \<Rightarrow> w)"
  by (cases a) simp_all

lemma stateOf_mapOutcome: "stateOf (mapOutcome h a) = h (stateOf a)"
  by (cases a) simp_all

lemma completes_Done: "completes a \<Longrightarrow> a = Done (stateOf a)"
  by (cases a) simp_all

lemma andThen_Done:
  "andThen a k = Done w' \<Longrightarrow> \<exists>w1. a = Done w1 \<and> k w1 = Done w'"
  by (cases a) simp_all

lemma showEditor_unfold:
  assumes "fieldAt w fid = Some f"
  shows "showEditor e fid w =
     (case sourceBlock f of
        None \<Rightarrow> Thrown TypeError (putField fid (openedField (nextId w) f) (openedPage e fid w))
      | Some b \<Rightarrow>
         (case parentBlock b of
            None \<Rightarrow> Thrown TypeError (putField fid (openedField (nextId w) f) (openedPage e fid w))
          | Some cat \<Rightarrow>
             andThen
               (updateSliderHandles e fid
                  (putField fid (openedField (nextId w) f) (shownPage e fid cat w)))
               (onField fid updateDom)))"
proof -
  have sh: "showPositionedByBlock fid (setCategory cat
              (putField fid (openedField (nextId w) f) (openedPage e fid w))) =
            putField fid (openedField (nextId w) f) (shownPage e fid cat w)" for cat
    by (simp add: page_defs putField_def shownPage_def openedPage_def)
  have op: "(let w1 = clearContent (hideWithoutAnimation w);
               (rid, w2) = fresh w1;
               labelDom = createLabelDom (VALUE_LABEL e) rid;
               w3 = appendChild (fst labelDom) w2;
               f1 = f\<lparr>valueReadout := Some (snd labelDom)\<rparr>;
               (sid, w4) = fresh w3;
               s = (newSlider sid)\<lparr>unitIncrement := Some (1 / 10)\<rparr>;
               s = s\<lparr>step := Some (1 / 10)\<rparr>;
               s = s\<lparr>minimum := Some (- 1)\<rparr>;
               s = s\<lparr>maximum := Some 1\<rparr>;
               s = s\<lparr>moveToPointEnabled := Some True\<rparr>;
               w5 = appendChild (SliderDom sid) w4;
               s = s\<lparr>backgroundColor := Some ''#EEEEEE''\<rparr>;
               f2 = f1\<lparr>valueSlider := Some s\<rparr>;
               (k, w6) = listen sid fid w5;
               w7 = w6\<lparr>numberKey := Some k\<rparr>
           in putField fid f2 (setColour ''#ffffff'' ''#dddddd'' w7)) =
          putField fid (openedField (nextId w) f) (openedPage e fid w)"
    by (simp add: Let_def page_defs putField_def openedField_def openedPage_def)
  show ?thesis
    unfolding sh[symmetric] op[symmetric]
    using assms
    by (simp add: showEditor_def Let_def split_beta split: option.splits)
qed

lemma showEditor_cases:
  obtains b cat where "sourceBlock f = Some b" "parentBlock b = Some cat"
  | "sourceBlock f = None \<or> (\<exists>b. sourceBlock f = Some b \<and> parentBlock b = None)"
proof (cases "sourceBlock f")
  case None
  then show ?thesis using that(2) by simp
next
  case (Some b)
  then show ?thesis using that by (cases "parentBlock b") auto
qed

subsection \<open>The page after an opening\<close>

lemma textless_callback: "textless (stateOf (sliderCallback e x f)) = textless f"
  by (simp add: sliderCallback_def updateDom_def setValue_def textless_def split: option.splits)

lemma textless_updateDom: "textless (stateOf (updateDom f)) = textless f"
  by (simp add: updateDom_def textless_def split: option.splits)

lemma textless_slider: "valueSlider (textless f) = valueSlider f"
  by (simp add: textless_def)

lemma overFields_putField: "overFields h (putField g f w) = putField g (h f) (overFields h w)"
  by (simp add: overFields_def putField_def fun_eq_iff)

lemma overFields_at: "fieldAt (overFields h w) g = map_option h (fieldAt w g)"
  by (simp add: overFields_def)

lemma onField_over:
  assumes "\<And>f. h (stateOf (m f)) = h f"
  shows "overFields h (stateOf (onField g m w)) = overFields h w"
proof (cases "fieldAt w g")
  case None
  then show ?thesis by (simp add: onField_def)
next
  case (Some f)
  have "fieldAt (overFields h w) g = Some (h f)" using Some by (simp add: overFields_at)
  then have "putField g (h f) (overFields h w) = overFields h w" by (rule putField_same)
  then show ?thesis
    using Some assms[of f] by (cases "m f") (simp_all add: onField_def overFields_putField)
qed

lemma fireListeners_over:
  assumes "\<And>f. h (stateOf (sliderCallback e x f)) = h f"
  shows "overFields h (stateOf (fireListeners e ls x w)) = overFields h w"
proof (induction ls arbitrary: w)
  case Nil
  then show ?case by simp
next
  case (Cons l ls)
  have o: "overFields h (stateOf (onField (self l) (sliderCallback e x) w)) = overFields h w"
    using assms by (rule onField_over)
  show ?case
    using o Cons.IH[of "stateOf (onField (self l) (sliderCallback e x) w)"]
    by (cases "onField (self l) (sliderCallback e x) w") simp_all
qed

lemma dispatchChange_over:
  assumes "\<And>f. h (stateOf (sliderCallback e x f)) = h f"
  shows "overFields h (stateOf (dispatchChange e sid x w)) = overFields h w"
  unfolding dispatchChange_def using assms by (rule fireListeners_over)

lemma sliderSetValue_over:
  assumes "fieldAt w fid = Some f" and "valueSlider f = Some s"
  shows "overFields textless (stateOf (sliderSetValue e fid v w)) =
         overFields textless (putField fid (f\<lparr>valueSlider := Some (sliderStep e v s)\<rparr>) w)"
proof (cases "sliderChange e s v")
  case None
  then show ?thesis using assms by (simp add: sliderSetValue_def sliderStep_def)
next
  case (Some r)
  then show ?thesis
    using assms
    by (simp add: sliderSetValue_def sliderStep_def dispatchChange_over[where h = textless, OF textless_callback])
qed

lemma bare_callback:
  "callless (textless (stateOf (sliderCallback e x f))) = callless (textless f)"
  by (simp add: textless_callback)

lemma bare_step:
  assumes "fieldAt w fid = Some f" and "valueSlider f = Some s"
  shows "bare (putField fid (f\<lparr>valueSlider := Some (s\<lparr>setValueCalls := a, changes := b\<rparr>)\<rparr>) w) =
         bare w"
proof -
  have "callless (textless (f\<lparr>valueSlider := Some (s\<lparr>setValueCalls := a, changes := b\<rparr>)\<rparr>)) =
        callless (textless f)"
    using assms(2) by (simp add: callless_def textless_def)
  moreover have "putField fid (callless (textless f)) (bare w) = bare w"
    using assms(1) by (intro putField_same) (simp add: bare_def overFields_at)
  ultimately show ?thesis by (simp add: bare_def overFields_putField)
qed

lemma sliderSetValue_bare: "bare (stateOf (sliderSetValue e fid v w)) = bare w"
proof (cases "fieldAt w fid")
  case None
  then show ?thesis by (simp add: sliderSetValue_def)
next
  case (Some f)
  show ?thesis
  proof (cases "valueSlider f")
    case None
    then show ?thesis using Some by (simp add: sliderSetValue_def)
  next
    case s: (Some s)
    show ?thesis
    proof (cases "sliderChange e s v")
      case None
      then show ?thesis
        using Some s bare_step[OF Some s, where a = "setValueCalls s @ [v]" and b = "changes s"]
        by (simp add: sliderSetValue_def)
    next
      case r: (Some r)
      have "bare (stateOf (sliderSetValue e fid v w)) =
            bare (putField fid (f\<lparr>valueSlider := Some (s\<lparr>setValueCalls := setValueCalls s @ [v],
                                                    changes := changes s @ [r]\<rparr>)\<rparr>) w)"
        using Some s r
        by (simp add: sliderSetValue_def bare_def dispatchChange_over[where h = "\<lambda>f. callless (textless f)", OF bare_callback])
      then show ?thesis by (simp add: bare_step[OF Some s])
    qed
  qed
qed

lemma updateSliderHandles_bare: "bare (stateOf (updateSliderHandles e fid w)) = bare w"
  by (simp add: updateSliderHandles_def Let_def stateOf_andThen sliderSetValue_bare
      split: option.splits outcome.splits)
    (metis sliderSetValue_bare stateOf.simps)

lemma updateDom_bare: "bare (stateOf (onField fid updateDom w)) = bare w"
  unfolding bare_def by (rule onField_over) (simp add: textless_updateDom)

lemma showEditor_bare:
  assumes "fieldAt w fid = Some f"
  shows "\<exists>p. bare (stateOf (showEditor e fid w)) =
              bare (putField fid (openedField (nextId w) f) p) \<and>
             (p = openedPage e fid w \<or> (\<exists>cat. p = shownPage e fid cat w))"
proof (cases rule: showEditor_cases[of f])
  case (1 b cat)
  let ?p = "putField fid (openedField (nextId w) f) (shownPage e fid cat w)"
  have "bare (stateOf (showEditor e fid w)) = bare ?p"
  proof (cases "updateSliderHandles e fid ?p")
    case (Done w1)
    then show ?thesis
      using updateSliderHandles_bare[of e fid ?p] updateDom_bare[of fid w1] 1
      by (simp add: showEditor_unfold[OF assms])
  next
    case (Thrown er w1)
    then show ?thesis
      using updateSliderHandles_bare[of e fid ?p] 1
      by (simp add: showEditor_unfold[OF assms])
  qed
  then show ?thesis by blast
next
  case 2
  then show ?thesis by (auto simp: showEditor_unfold[OF assms])
qed

lemma bare_page:
  "listeners (bare w) = listeners w" "nextId (bare w) = nextId w"
  "numberKey (bare w) = numberKey w" "colourKey (bare w) = colourKey w"
  "content (bare w) = content w"
  "fieldAt (bare w) g = map_option (\<lambda>f. callless (textless f)) (fieldAt w g)"
  by (simp_all add: bare_def overFields_def)

lemma opened_slider:
  assumes "callless (textless f') = callless (textless (openedField n f))"
  shows "\<exists>s. valueSlider f' = Some s \<and> sliderId s = Suc n \<and>
           minimum s = Some (- 1) \<and> maximum s = Some 1 \<and> step s = Some (1 / 10) \<and>
           unitIncrement s = Some (1 / 10) \<and> moveToPointEnabled s = Some True \<and>
           backgroundColor s = Some ''#EEEEEE''"
proof -
  from arg_cong[OF assms, of valueSlider]
  obtain s where s: "valueSlider f' = Some s"
    and eq: "s\<lparr>setValueCalls := [], changes := []\<rparr> =
        \<lparr>sliderId = Suc n, unitIncrement = Some (1 / 10),
          step = Some (1 / 10), minimum = Some (- 1), maximum = Some 1,
          moveToPointEnabled = Some True, backgroundColor = Some ''#EEEEEE'',
          setValueCalls = [], changes = []\<rparr>"
    by (auto simp: callless_def textless_def openedField_def)
  from eq have "sliderId s = Suc n \<and>
           minimum s = Some (- 1) \<and> maximum s = Some 1 \<and> step s = Some (1 / 10) \<and>
           unitIncrement s = Some (1 / 10) \<and> moveToPointEnabled s = Some True \<and>
           backgroundColor s = Some ''#EEEEEE''"
    by (cases s) simp
  with s show ?thesis by simp
qed

lemma showEditor_page:
  assumes "fieldAt w fid = Some f"
  shows "listeners (stateOf (showEditor e fid w)) =
           listeners w @ [\<lparr>lkey = nextId w + 2, target = Suc (nextId w), self = fid\<rparr>]"
    and "nextId (stateOf (showEditor e fid w)) = nextId w + 3"
    and "numberKey (stateOf (showEditor e fid w)) = Some (nextId w + 2)"
    and "colourKey (stateOf (showEditor e fid w)) = colourKey w"
    and "content (stateOf (showEditor e fid w)) =
           [LabelDom (VALUE_LABEL e) (nextId w), SliderDom (Suc (nextId w))]"
    and "\<exists>f'. fieldAt (stateOf (showEditor e fid w)) fid = Some f' \<and>
           callless (textless f') = callless (textless (openedField (nextId w) f))"
    and "fieldAt w g \<noteq> None \<Longrightarrow> fieldAt (stateOf (showEditor e fid w)) g \<noteq> None"
proof -
  let ?W = "stateOf (showEditor e fid w)"
  obtain p where b: "bare ?W = bare (putField fid (openedField (nextId w) f) p)"
    and p: "p = openedPage e fid w \<or> (\<exists>cat. p = shownPage e fid cat w)"
    using showEditor_bare[OF assms] by blast
  have q: "listeners p = listeners w @ [\<lparr>lkey = nextId w + 2, target = Suc (nextId w), self = fid\<rparr>]"
    "nextId p = nextId w + 3" "numberKey p = Some (nextId w + 2)" "colourKey p = colourKey w"
    "content p = [LabelDom (VALUE_LABEL e) (nextId w), SliderDom (Suc (nextId w))]"
    "fieldAt p = fieldAt w"
    using p by (auto simp: openedPage_def shownPage_def)
  from arg_cong[OF b, of listeners] show "listeners ?W =
      listeners w @ [\<lparr>lkey = nextId w + 2, target = Suc (nextId w), self = fid\<rparr>]"
    by (simp add: bare_page putField_def q)
  from arg_cong[OF b, of nextId] show "nextId ?W = nextId w + 3"
    by (simp add: bare_page putField_def q)
  from arg_cong[OF b, of numberKey] show "numberKey ?W = Some (nextId w + 2)"
    by (simp add: bare_page putField_def q)
  from arg_cong[OF b, of colourKey] show "colourKey ?W = colourKey w"
    by (simp add: bare_page putField_def q)
  from arg_cong[OF b, of content] show "content ?W =
      [LabelDom (VALUE_LABEL e) (nextId w), SliderDom (Suc (nextId w))]"
    by (simp add: bare_page putField_def q)
  from arg_cong[OF b, of "\<lambda>w. fieldAt w fid"]
  show "\<exists>f'. fieldAt ?W fid = Some f' \<and>
           callless (textless f') = callless (textless (openedField (nextId w) f))"
    by (auto simp: bare_page putField_def)
  from arg_cong[OF b, of "\<lambda>w. fieldAt w g"]
  show "fieldAt ?W g \<noteq> None" if "fieldAt w g \<noteq> None"
    using that by (cases "g = fid") (auto simp: bare_page putField_def q)
qed

lemma showEditor_slider:
  assumes "fieldAt w fid = Some f"
  shows "\<exists>f' s. fieldAt (stateOf (showEditor e fid w)) fid = Some f' \<and>
           valueSlider f' = Some s \<and> sliderId s = Suc (nextId w) \<and>
           minimum s = Some (- 1) \<and> maximum s = Some 1 \<and> step s = Some (1 / 10) \<and>
           unitIncrement s = Some (1 / 10) \<and> moveToPointEnabled s = Some True \<and>
           backgroundColor s = Some ''#EEEEEE''"
proof -
  obtain f' where f': "fieldAt (stateOf (showEditor e fid w)) fid = Some f'"
    "callless (textless f') = callless (textless (openedField (nextId w) f))"
    using showEditor_page(6)[OF assms] by blast
  from opened_slider[OF f'(2)] f'(1) show ?thesis by blast
qed

subsection \<open>The values handed to the slider\<close>

lemma sliderSetValue_slider:
  assumes "fieldAt w fid = Some f" and "valueSlider f = Some s"
  shows "\<exists>f'. fieldAt (stateOf (sliderSetValue e fid v w)) fid = Some f' \<and>
           valueSlider f' = Some (sliderStep e v s)"
proof -
  from arg_cong[OF sliderSetValue_over[OF assms, of e v], of "\<lambda>w. fieldAt w fid"]
  obtain f' where f': "fieldAt (stateOf (sliderSetValue e fid v w)) fid = Some f'"
    and t: "textless f' = textless (f\<lparr>valueSlider := Some (sliderStep e v s)\<rparr>)"
    by (auto simp: overFields_at putField_def)
  from arg_cong[OF t, of valueSlider] have "valueSlider f' = Some (sliderStep e v s)"
    by (simp add: textless_slider)
  with f' show ?thesis by simp
qed

lemma updateSliderHandles_calls:
  assumes "fieldAt w fid = Some f" and "valueSlider f = Some s"
    and "updateSliderHandles e fid w = Done w'"
  shows "\<exists>f' s'. fieldAt w' fid = Some f' \<and> valueSlider f' = Some s' \<and>
           setValueCalls s' = setValueCalls s @
             (if parseFloat e (JStr (getValue f)) = Fin 0 then [Fin 1, Fin 0]
              else [parseFloat e (JStr (getValue f))])"
proof (cases "parseFloat e (JStr (getValue f)) = Fin 0")
  case True
  from assms True obtain w1 where w1: "sliderSetValue e fid (Fin 1) w = Done w1"
    and w': "sliderSetValue e fid (Fin 0) w1 = Done w'"
    by (auto simp: updateSliderHandles_def dest: andThen_Done)
  from sliderSetValue_slider[OF assms(1,2), of e "Fin 1"] w1
  obtain f1 where f1: "fieldAt w1 fid = Some f1"
    "valueSlider f1 = Some (sliderStep e (Fin 1) s)" by auto
  from sliderSetValue_slider[OF f1, of e "Fin 0"] w' True show ?thesis
    by (auto simp: sliderStep_def)
next
  case False
  from assms False have w': "sliderSetValue e fid (parseFloat e (JStr (getValue f))) w = Done w'"
    by (auto simp: updateSliderHandles_def Let_def)
  from sliderSetValue_slider[OF assms(1,2), of e "parseFloat e (JStr (getValue f))"] w' False
  show ?thesis by (auto simp: sliderStep_def)
qed

lemma updateDom_slider:
  assumes "onField fid updateDom w = Done w'" and "fieldAt w fid = Some f"
  shows "\<exists>f'. fieldAt w' fid = Some f' \<and> valueSlider f' = valueSlider f"
  using assms
  by (auto simp: onField_def updateDom_def putField_def split: option.splits outcome.splits)

lemma showEditor_calls:
  assumes "fieldAt w fid = Some f" and "showEditor e fid w = Done w'"
  shows "\<exists>f' s'. fieldAt w' fid = Some f' \<and> valueSlider f' = Some s' \<and>
           setValueCalls s' =
             (if parseFloat e (JStr (getValue f)) = Fin 0 then [Fin 1, Fin 0]
              else [parseFloat e (JStr (getValue f))])"
proof (cases rule: showEditor_cases[of f])
  case (1 b cat)
  let ?p = "putField fid (openedField (nextId w) f) (shownPage e fid cat w)"
  from assms(2) 1 obtain w1 where w1: "updateSliderHandles e fid ?p = Done w1"
    and w': "onField fid updateDom w1 = Done w'"
    by (auto simp: showEditor_unfold[OF assms(1)] dest: andThen_Done)
  have a: "fieldAt ?p fid = Some (openedField (nextId w) f)" by (simp add: putField_def)
  obtain s0 where s0: "valueSlider (openedField (nextId w) f) = Some s0" "setValueCalls s0 = []"
    by (simp add: openedField_def)
  have g: "getValue (openedField (nextId w) f) = getValue f"
    by (simp add: openedField_def getValue_def)
  from updateSliderHandles_calls[OF a s0(1) w1] obtain f1 s1 where
    f1: "fieldAt w1 fid = Some f1" "valueSlider f1 = Some s1"
    "setValueCalls s1 = (if parseFloat e (JStr (getValue f)) = Fin 0 then [Fin 1, Fin 0]
              else [parseFloat e (JStr (getValue f))])"
    by (auto simp: s0(2) g)
  from updateDom_slider[OF w' f1(1)] f1(2,3) show ?thesis by auto
next
  case 2
  then show ?thesis using assms by (auto simp: showEditor_unfold)
qed

subsection \<open>Disposals\<close>

lemma dispose_values:
  assumes "fieldAt (stateOf (dispose fid w)) g = Some f'"
  shows "\<exists>f. fieldAt w g = Some f \<and> fieldValue f' = fieldValue f"
  using assms
  by (cases "g = fid")
    (auto simp: dispose_def Field_dispose_def putField_def setGroup_def unlistenByKey_def
      clearContent_def hideWithoutAnimation_def Let_def split: option.splits if_splits)

lemma dispose_keeps:
  assumes "l \<in> set (listeners w)" and "colourKey w \<noteq> Some (lkey l)"
  shows "l \<in> set (listeners (stateOf (dispose c w))) \<and>
         colourKey (stateOf (dispose c w)) = colourKey w"
  using assms
  by (auto simp: dispose_def Field_dispose_def putField_def setGroup_def unlistenByKey_def
      clearContent_def hideWithoutAnimation_def Let_def split: option.splits)

lemma disposeMany_keeps:
  "l \<in> set (listeners w) \<Longrightarrow> colourKey w \<noteq> Some (lkey l) \<Longrightarrow>
   l \<in> set (listeners (disposeMany cs w))"
proof (induction cs arbitrary: w)
  case Nil
  then show ?case by simp
next
  case (Cons c cs)
  from dispose_keeps[OF Cons.prems, of c] show ?case
    using Cons.IH[of "stateOf (dispose c w)"] Cons.prems(2) by simp
qed

subsection \<open>Values that cast to a number\<close>

lemma callback_numeric:
  assumes "hostSound e" and "sliderValue x" and "numericText e (fieldValue f)"
  shows "numericText e (fieldValue (stateOf (sliderCallback e x f)))"
proof (cases "x = JNull")
  case True
  then show ?thesis using assms(3) by (simp add: sliderCallback_def)
next
  case False
  have "\<forall>s. x \<noteq> JStr s" using assms(2) by (auto simp: sliderValue_def)
  from parse_number[OF False this] assms(1) show ?thesis
    using False by (simp add: sliderCallback_def updateDom_value setValue_def toFixed1_numeric)
qed

lemma constructor_numeric:
  assumes "hostSound e"
  shows "numericText e (fieldValue (FieldNumberSlider e v mn mx pr vd))"
proof -
  have fv: "fieldValue (FieldNumberSlider e v mn mx pr vd) =
      (if truthy v \<and> \<not> jsIsNaN e v then jsString e v else units ''0'')"
    by (simp add: FieldNumberSlider_def addArgType_def Field_constructor_def)
  show ?thesis
  proof (cases "truthy v \<and> \<not> jsIsNaN e v")
    case False
    then show ?thesis using fv numericText_infinity(3)[OF assms] by auto
  next
    case True
    show ?thesis
    proof (cases v)
      case (JStr s)
      then show ?thesis using True fv by (simp add: numericText_def)
    next
      case (JNum n)
      show ?thesis
      proof (cases n)
        case (Fin r)
        then have r0: "r \<noteq> 0" using True JNum by simp
        have p: "plainLiteral (digits e \<bar>r\<bar>)" using r0 assms by (simp add: hostSound_def)
        have "numericText e ((if r < 0 then units ''-'' else []) @ digits e \<bar>r\<bar>)"
          by (rule numericText_plain[OF assms p]) simp
        then show ?thesis using True fv JNum Fin r0 by (auto simp: abs_if)
      qed (use True fv JNum in \<open>auto simp: numericText_infinity\<close>)
    qed (use True in auto)
  qed
qed

lemma putField_numeric:
  "valuesNumeric e w \<Longrightarrow> numericText e (fieldValue f) \<Longrightarrow> valuesNumeric e (putField g f w)"
  by (simp add: valuesNumeric_def putField_def)

lemma onField_numeric:
  assumes "hostSound e" and "sliderValue x" and "valuesNumeric e w"
  shows "valuesNumeric e (stateOf (onField fid (sliderCallback e x) w))"
proof (cases "fieldAt w fid")
  case None
  then show ?thesis using assms(3) by (simp add: onField_def)
next
  case (Some f)
  then have "numericText e (fieldValue f)" using assms(3) by (simp add: valuesNumeric_def)
  from callback_numeric[OF assms(1,2) this] assms(3) Some show ?thesis
    by (cases "sliderCallback e x f") (auto simp: onField_def putField_def valuesNumeric_def)
qed

lemma fireListeners_numeric:
  assumes "hostSound e" and "sliderValue x"
  shows "valuesNumeric e w \<Longrightarrow> valuesNumeric e (stateOf (fireListeners e ls x w))"
proof (induction ls arbitrary: w)
  case Nil
  then show ?case by simp
next
  case (Cons l ls)
  from onField_numeric[OF assms Cons.prems, of "self l"]
  show ?case
    using Cons.IH[of "stateOf (onField (self l) (sliderCallback e x) w)"]
    by (cases "onField (self l) (sliderCallback e x) w") auto
qed

lemma sliderSetValue_numeric:
  assumes "hostSound e" and "valuesNumeric e w"
  shows "valuesNumeric e (stateOf (sliderSetValue e fid v w))"
proof (cases "fieldAt w fid")
  case None
  then show ?thesis using assms(2) by (simp add: sliderSetValue_def)
next
  case (Some f)
  then have n: "numericText e (fieldValue f)" using assms(2) by (simp add: valuesNumeric_def)
  show ?thesis
  proof (cases "valueSlider f")
    case None
    then show ?thesis using Some assms(2) by (simp add: sliderSetValue_def)
  next
    case s: (Some s)
    have p: "valuesNumeric e (putField fid (f\<lparr>valueSlider := Some s'\<rparr>) w)" for s'
      using assms(2) n by (intro putField_numeric) simp_all
    show ?thesis
    proof (cases "sliderChange e s v")
      case None
      then show ?thesis using Some s p by (simp add: sliderSetValue_def)
    next
      case r: (Some r)
      have "sliderValue (JNum r)" by (simp add: sliderValue_def)
      from fireListeners_numeric[OF assms(1) this p] show ?thesis
        using Some s r by (simp add: sliderSetValue_def dispatchChange_def)
    qed
  qed
qed

lemma updateSliderHandles_numeric:
  assumes "hostSound e" and "valuesNumeric e w"
  shows "valuesNumeric e (stateOf (updateSliderHandles e fid w))"
proof (cases "fieldAt w fid")
  case None
  then show ?thesis using assms(2) by (simp add: updateSliderHandles_def)
next
  case (Some f)
  show ?thesis
  proof (cases "valueSlider f")
    case None
    then show ?thesis using Some assms(2) by (simp add: updateSliderHandles_def)
  next
    case s: (Some s)
    let ?num = "parseFloat e (JStr (getValue f))"
    let ?a = "if ?num = Fin 0 then sliderSetValue e fid (Fin 1) w else Done w"
    have a: "valuesNumeric e (stateOf ?a)"
      using assms sliderSetValue_numeric[OF assms, of fid "Fin 1"] by simp
    have "valuesNumeric e (stateOf (andThen ?a (sliderSetValue e fid ?num)))"
    proof (cases ?a)
      case (Done w1)
      then have "valuesNumeric e w1" using a by simp
      from sliderSetValue_numeric[OF assms(1) this, of fid ?num] Done show ?thesis by simp
    next
      case (Thrown er w1)
      then show ?thesis using a by simp
    qed
    then show ?thesis using Some s by (simp add: updateSliderHandles_def Let_def)
  qed
qed

lemma updateDom_numeric:
  assumes "valuesNumeric e w"
  shows "valuesNumeric e (stateOf (onField fid updateDom w))"
proof (cases "fieldAt w fid")
  case None
  then show ?thesis using assms by (simp add: onField_def)
next
  case (Some f)
  then have "numericText e (fieldValue f)" using assms by (simp add: valuesNumeric_def)
  then have "numericText e (fieldValue (stateOf (updateDom f)))" by (simp add: updateDom_value)
  then show ?thesis
    using Some assms by (cases "updateDom f") (simp_all add: onField_def putField_numeric)
qed

lemma showEditor_numeric:
  assumes "hostSound e" and "valuesNumeric e w"
  shows "valuesNumeric e (stateOf (showEditor e fid w))"
proof (cases "fieldAt w fid")
  case None
  then show ?thesis using assms(2) by (simp add: showEditor_def)
next
  case (Some f)
  then have n: "numericText e (fieldValue (openedField (nextId w) f))"
    using assms(2) by (simp add: valuesNumeric_def openedField_def)
  have "valuesNumeric e p" if "fieldAt p = fieldAt w" for p
    using assms(2) that by (simp add: valuesNumeric_def)
  then have p: "valuesNumeric e (putField fid (openedField (nextId w) f) (openedPage e fid w))"
    "valuesNumeric e (putField fid (openedField (nextId w) f) (shownPage e fid cat w))" for cat
    using n by (simp_all add: putField_numeric openedPage_def shownPage_def)
  show ?thesis
  proof (cases rule: showEditor_cases[of f])
    case (1 b cat)
    let ?p = "putField fid (openedField (nextId w) f) (shownPage e fid cat w)"
    have u: "valuesNumeric e (stateOf (updateSliderHandles e fid ?p))"
      using assms(1) p(2) by (rule updateSliderHandles_numeric)
    show ?thesis
    proof (cases "updateSliderHandles e fid ?p")
      case (Done w1)
      then have "valuesNumeric e w1" using u by simp
      from updateDom_numeric[OF this, of fid] Done 1 show ?thesis
        by (simp add: showEditor_unfold[OF Some])
    next
      case (Thrown er w1)
      then show ?thesis using u 1 by (simp add: showEditor_unfold[OF Some])
    qed
  next
    case 2
    then show ?thesis using p(1) by (auto simp: showEditor_unfold[OF Some])
  qed
qed

lemma perform_numeric:
  assumes "hostSound e" and "sliderAction a" and "valuesNumeric e w"
  shows "valuesNumeric e (perform e a w)"
proof (cases a)
  case (Create fid v mn mx pr sb)
  then show ?thesis
    using assms(3) constructor_numeric[OF assms(1), of v mn mx pr None]
    by (auto simp: valuesNumeric_def putField_def FieldNumberSlider_def)
next
  case (Open fid)
  then show ?thesis using showEditor_numeric[OF assms(1,3)] by simp
next
  case (Change sid x)
  then show ?thesis
    using assms fireListeners_numeric[of e x w "listenersOn sid w"]
    by (simp add: dispatchChange_def)
next
  case (Dispose fid)
  then show ?thesis
    using assms(3) dispose_values[of fid w] by (fastforce simp: valuesNumeric_def)
qed

lemma performAll_numeric:
  assumes "hostSound e"
  shows "list_all sliderAction as \<Longrightarrow> valuesNumeric e w \<Longrightarrow>
         valuesNumeric e (performAll e as w)"
proof (induction as arbitrary: w)
  case Nil
  then show ?case by simp
next
  case (Cons a as)
  then show ?case using perform_numeric[OF assms, of a w] by simp
qed

subsection \<open>The restrictor is not read\<close>

lemma forget_callback:
  "sliderCallback e x (forgetRestrictor f) = mapOutcome forgetRestrictor (sliderCallback e x f)"
  by (simp add: sliderCallback_def updateDom_def setValue_def forgetRestrictor_def getText_def
      split: option.splits)

lemma forget_updateDom:
  "updateDom (forgetRestrictor f) = mapOutcome forgetRestrictor (updateDom f)"
  by (simp add: updateDom_def forgetRestrictor_def getText_def split: option.splits)

lemma onField_forget:
  assumes "\<And>f. m (forgetRestrictor f) = mapOutcome forgetRestrictor (m f)"
  shows "onField g m (overFields forgetRestrictor w) =
         mapOutcome (overFields forgetRestrictor) (onField g m w)"
proof (cases "fieldAt w g")
  case None
  then show ?thesis by (simp add: onField_def overFields_at)
next
  case (Some f)
  then show ?thesis
    using assms[of f]
    by (cases "m f") (simp_all add: onField_def overFields_at overFields_putField)
qed

lemma fireListeners_forget:
  "fireListeners e ls x (overFields forgetRestrictor w) =
   mapOutcome (overFields forgetRestrictor) (fireListeners e ls x w)"
proof (induction ls arbitrary: w)
  case Nil
  then show ?case by simp
next
  case (Cons l ls)
  have o: "onField (self l) (sliderCallback e x) (overFields forgetRestrictor w) =
           mapOutcome (overFields forgetRestrictor) (onField (self l) (sliderCallback e x) w)"
    by (rule onField_forget) (rule forget_callback)
  show ?case
    by (cases "onField (self l) (sliderCallback e x) w") (simp_all add: o Cons.IH)
qed

lemma dispatchChange_forget:
  "dispatchChange e sid x (overFields forgetRestrictor w) =
   mapOutcome (overFields forgetRestrictor) (dispatchChange e sid x w)"
proof -
  have "listenersOn sid (overFields forgetRestrictor w) = listenersOn sid w"
    by (simp add: listenersOn_def overFields_def)
  then show ?thesis by (simp add: dispatchChange_def fireListeners_forget)
qed

lemma sliderSetValue_forget:
  "sliderSetValue e fid v (overFields forgetRestrictor w) =
   mapOutcome (overFields forgetRestrictor) (sliderSetValue e fid v w)"
proof (cases "fieldAt w fid")
  case None
  then show ?thesis by (simp add: sliderSetValue_def overFields_at)
next
  case (Some f)
  have c: "(forgetRestrictor f)\<lparr>valueSlider := s'\<rparr> = forgetRestrictor (f\<lparr>valueSlider := s'\<rparr>)"
    for s' by (simp add: forgetRestrictor_def)
  have v: "valueSlider (forgetRestrictor f) = valueSlider f" by (simp add: forgetRestrictor_def)
  show ?thesis
    using Some
    by (simp add: sliderSetValue_def overFields_at v c overFields_putField[symmetric]
        dispatchChange_forget split: option.splits)
qed

lemma andThen_forget:
  assumes "\<And>w. k (h w) = mapOutcome h (k w)"
  shows "andThen (mapOutcome h a) k = mapOutcome h (andThen a k)"
  using assms by (cases a) simp_all

lemma updateSliderHandles_forget:
  "updateSliderHandles e fid (overFields forgetRestrictor w) =
   mapOutcome (overFields forgetRestrictor) (updateSliderHandles e fid w)"
proof (cases "fieldAt w fid")
  case None
  then show ?thesis by (simp add: updateSliderHandles_def overFields_at)
next
  case (Some f)
  have v: "valueSlider (forgetRestrictor f) = valueSlider f"
    "getValue (forgetRestrictor f) = getValue f"
    by (simp_all add: forgetRestrictor_def getValue_def)
  let ?h = "overFields forgetRestrictor"
  have a: "andThen (mapOutcome ?h a) (sliderSetValue e fid n) =
           mapOutcome ?h (andThen a (sliderSetValue e fid n))" for a n
    by (rule andThen_forget) (rule sliderSetValue_forget)
  have b: "(if c then sliderSetValue e fid (Fin 1) (?h w) else Done (?h w)) =
           mapOutcome ?h (if c then sliderSetValue e fid (Fin 1) w else Done w)" for c
    by (simp add: sliderSetValue_forget)
  show ?thesis
    using Some
    by (simp only: updateSliderHandles_def overFields_at option.map option.case v Let_def b a
        mapOutcome.simps split: option.splits)
      (simp split: option.splits)
qed

lemma showEditor_forget:
  "showEditor e fid (overFields forgetRestrictor w) =
   mapOutcome (overFields forgetRestrictor) (showEditor e fid w)"
proof (cases "fieldAt w fid")
  case None
  then show ?thesis by (simp add: showEditor_def overFields_at)
next
  case (Some f)
  let ?h = "overFields forgetRestrictor"
  have f': "fieldAt (?h w) fid = Some (forgetRestrictor f)" using Some by (simp add: overFields_at)
  have n: "nextId (?h w) = nextId w" by (simp add: overFields_def)
  have s: "sourceBlock (forgetRestrictor f) = sourceBlock f" by (simp add: forgetRestrictor_def)
  have o: "openedField k (forgetRestrictor f) = forgetRestrictor (openedField k f)" for k
    by (simp add: openedField_def forgetRestrictor_def)
  have p: "openedPage e fid (?h w) = ?h (openedPage e fid w)"
    "shownPage e fid cat (?h w) = ?h (shownPage e fid cat w)" for cat
    by (simp_all add: openedPage_def shownPage_def overFields_def)
  have a: "andThen (mapOutcome ?h a) (onField fid updateDom) =
           mapOutcome ?h (andThen a (onField fid updateDom))" for a
    by (rule andThen_forget) (rule onField_forget, rule forget_updateDom)
  show ?thesis
    unfolding showEditor_unfold[OF f'] showEditor_unfold[OF Some] n s o p
      overFields_putField[symmetric] updateSliderHandles_forget a
    by (simp split: option.splits)
qed

subsection \<open>The sample page\<close>

lemma demo_field0: "fieldAt demoWorld 0 = Some (demoField (JStr (units ''0.5'')))"
  by (simp add: demoWorld_def)

lemma demo_field1: "fieldAt demoWorld 1 = Some (demoField (JNum (Fin 0)))"
  by (simp add: demoWorld_def)

lemma demo_field2: "fieldAt demoWorld 2 = Some demoBounded"
  by (simp add: demoWorld_def)

lemma demo_value0: "fieldValue (demoField (JNum (Fin 0))) = units ''0''"
  by (simp add: demoField_def FieldNumberSlider_def addArgType_def Field_constructor_def)

lemma demo_value_half: "fieldValue (demoField (JStr (units ''0.5''))) = units ''0.5''"
proof -
  have "\<not> jsIsNaN demoEnv (JStr (units ''0.5''))" by code_simp
  moreover have "truthy (JStr (units ''0.5''))" by (simp add: units_def)
  ultimately show ?thesis
    by (simp add: demoField_def FieldNumberSlider_def addArgType_def Field_constructor_def)
qed

lemma demo_page:
  "nextId demoWorld = 10" "listeners demoWorld = []" "colourKey demoWorld = Some 7"
  "numberKey demoWorld = None" "content demoWorld = []"
  by (simp_all add: demoWorld_def)

lemma demo_allocated: "allocated demoWorld"
  by (simp add: allocated_def demo_page)

lemma fracDigits_digits:
  "0 \<le> x \<Longrightarrow> x < 1 \<Longrightarrow> \<forall>c \<in> set (fracDigits n x). isDigit c"
proof (induction n arbitrary: x)
  case 0
  then show ?case by simp
next
  case (Suc n)
  have "nat \<lfloor>x * 10\<rfloor> < 10"
  proof -
    have "x * 10 < 10" using Suc.prems(2) by simp
    then have "\<lfloor>x * 10\<rfloor> < 10" by (simp add: floor_less_iff)
    then show ?thesis by linarith
  qed
  then have d: "isDigit (digitChar (nat \<lfloor>x * 10\<rfloor>))" by (rule isDigit_digitChar)
  have "0 \<le> frac (x * 10)" "frac (x * 10) < 1" by (simp_all add: frac_lt_1)
  from Suc.IH[OF this] d show ?case by simp
qed

lemma demo_hostSound: "hostSound demoEnv"
proof -
  have "plainLiteral (plainDigits r)" if "0 < r" for r
  proof (cases "frac r = 0")
    case True
    then show ?thesis
      using showNat_digits showNat_nonempty
      by (simp add: plainDigits_def plainLiteral_int)
  next
    case False
    have fr: "0 \<le> frac r" "frac r < 1" by (simp_all add: frac_lt_1)
    have ne: "fracDigits 17 (frac r) \<noteq> []"
      using False by (simp add: numeral_eq_Suc)
    from plainLiteral_point[OF showNat_nonempty showNat_digits ne fracDigits_digits[OF fr]]
    show ?thesis using False by (simp add: plainDigits_def units_def)
  qed
  then show ?thesis by (simp add: hostSound_def demoEnv_def)
qed

subsection \<open>The change callback\<close>

text \<open>
  Claim C1, as the code has it. The claim reads: a change event whose value is \<^verbatim>\<open>null\<close>
  commits \<^verbatim>\<open>"0.0"\<close>. The callback tests \<^verbatim>\<open>value !== null\<close> before anything else, so a
  \<^verbatim>\<open>null\<close> event commits nothing: the callback returns the field as it was, and a
  dispatch of the event to the listeners of a slider leaves the page as it was. The
  default of 0, committed as \<^verbatim>\<open>"0.0"\<close>, is what the other falsy event values get
  (0, NaN, \<^verbatim>\<open>undefined\<close>, the empty string).
\<close>

theorem null_event_commits_nothing:
  "sliderCallback e JNull f = Done f \<and>
   ((\<forall>l \<in> set (listenersOn sid w). fieldAt w (self l) \<noteq> None) \<longrightarrow>
      dispatchChange e sid JNull w = Done w) \<and>
   (x \<noteq> JNull \<and> \<not> truthy x \<longrightarrow>
      fieldValue (stateOf (sliderCallback e x f)) = units ''0.0'')"
  by (simp add: sliderCallback_def dispatchChange_def fireListeners_null updateDom_value
      setValue_def jsOr_def parseFloat_def toFixed1_zero)

text \<open>
  On the sample page, field 0 is opened; a \<^verbatim>\<open>null\<close> event of its slider changes nothing, and
  an \<^verbatim>\<open>undefined\<close> event commits \<^verbatim>\<open>"0.0"\<close>.
\<close>

theorem null_event_witness:
  "list_all (\<lambda>l. fieldAt (stateOf (showEditor demoEnv 0 demoWorld)) (self l) \<noteq> None)
     (listenersOn 11 (stateOf (showEditor demoEnv 0 demoWorld))) \<and>
   dispatchChange demoEnv 11 JNull (stateOf (showEditor demoEnv 0 demoWorld)) =
     Done (stateOf (showEditor demoEnv 0 demoWorld)) \<and>
   JUndefined \<noteq> JNull \<and> \<not> truthy JUndefined \<and>
   fieldValue (stateOf (sliderCallback demoEnv JUndefined (demoField (JStr (units ''0.5''))))) =
     units ''0.0''"
proof -
  have l: "listenersOn 11 (stateOf (showEditor demoEnv 0 demoWorld)) =
             [\<lparr>lkey = 12, target = 11, self = 0\<rparr>]"
    by (simp add: listenersOn_def showEditor_page(1)[OF demo_field0] demo_page)
  have f: "fieldAt (stateOf (showEditor demoEnv 0 demoWorld)) 0 \<noteq> None"
    using showEditor_page(7)[OF demo_field0, of 0 demoEnv] demo_field0 by simp
  have h: "\<forall>l \<in> set (listenersOn 11 (stateOf (showEditor demoEnv 0 demoWorld))).
             fieldAt (stateOf (showEditor demoEnv 0 demoWorld)) (self l) \<noteq> None"
    using f by (simp add: l)
  show ?thesis
    using null_event_commits_nothing[of demoEnv "demoField (JStr (units ''0.5''))" 11
        "stateOf (showEditor demoEnv 0 demoWorld)" JUndefined] h
    by (simp add: list_all_iff)
qed

text \<open>
  C1 as written fails: field 0 holds \<^verbatim>\<open>"0.5"\<close>, is opened, its slider (identity 11, one
  listener) fires a change event with value \<^verbatim>\<open>null\<close>, and the field still holds
  \<^verbatim>\<open>"0.5"\<close>, not \<^verbatim>\<open>"0.0"\<close>.
\<close>

theorem null_event_counterexample:
  "map_option fieldValue
     (fieldAt (stateOf (dispatchChange demoEnv 11 JNull
                          (stateOf (showEditor demoEnv 0 demoWorld)))) 0) = Some (units ''0.5'') \<and>
   map_option fieldValue
     (fieldAt (stateOf (dispatchChange demoEnv 11 JNull
                          (stateOf (showEditor demoEnv 0 demoWorld)))) 0) \<noteq> Some (units ''0.0'') \<and>
   listenersOn 11 (stateOf (showEditor demoEnv 0 demoWorld)) = [\<lparr>lkey = 12, target = 11, self = 0\<rparr>]"
  by code_simp

text \<open>
  Claim C5, as the code has it. The claim reads: for every non-null event value \<open>x\<close> the
  committed value is \<open>x\<close> parsed as a float and formatted with \<^verbatim>\<open>toFixed(1)\<close>, and the
  readout shows the same string. The callback formats \<^verbatim>\<open>parseFloat(value || 0)\<close>. So, on a
  field whose overlay is open (it has its slider and its readout): for every non-null
  \<open>x\<close> the callback completes, the committed value is \<^verbatim>\<open>x || 0\<close> parsed and formatted,
  the readout's text and the field's displayed text are that same string; and for every
  \<open>x\<close> that is truthy or the Number 0 this is \<open>x\<close> itself parsed and formatted.
\<close>

theorem change_event_commits_formatted:
  assumes "x \<noteq> JNull" and "valueSlider f = Some s" and "valueReadout f = Some r"
  shows "\<exists>f'. sliderCallback e x f = Done f' \<and>
           fieldValue f' = toFixed1 e (parseFloat e (jsOr x (JNum (Fin 0)))) \<and>
           map_option textContent (valueReadout f') = Some (fieldValue f') \<and>
           getText f' = fieldValue f' \<and>
           (truthy x \<or> x = JNum (Fin 0) \<longrightarrow>
              fieldValue f' = toFixed1 e (parseFloat e x))"
  using assms
  by (auto simp: sliderCallback_def setValue_def updateDom_def getText_def jsOr_def)

text \<open>
  Field 0 of the sample page as \<^verbatim>\<open>showEditor_\<close> has it when the listener is registered, and
  the event value 0.3.
\<close>

theorem change_event_witness:
  "JNum (Fin (3 / 10)) \<noteq> JNull \<and>
   map_option sliderId (valueSlider (openedField 10 (demoField (JStr (units ''0.5''))))) = Some 11 \<and>
   map_option readoutId (valueReadout (openedField 10 (demoField (JStr (units ''0.5''))))) = Some 10 \<and>
   (\<exists>f'. sliderCallback demoEnv (JNum (Fin (3 / 10)))
            (openedField 10 (demoField (JStr (units ''0.5'')))) = Done f' \<and>
      fieldValue f' = units ''0.3'' \<and>
      map_option textContent (valueReadout f') = Some (units ''0.3''))"
proof -
  have x: "JNum (Fin (3 / 10)) \<noteq> JNull" by simp
  have s: "valueSlider (openedField 10 (demoField (JStr (units ''0.5'')))) =
      Some \<lparr>sliderId = 11, unitIncrement = Some (1 / 10),
          step = Some (1 / 10), minimum = Some (- 1), maximum = Some 1,
          moveToPointEnabled = Some True, backgroundColor = Some ''#EEEEEE'',
          setValueCalls = [], changes = []\<rparr>"
    by (simp add: openedField_def)
  have r: "valueReadout (openedField 10 (demoField (JStr (units ''0.5'')))) =
      Some \<lparr>readoutId = 10, textContent = []\<rparr>"
    by (simp add: openedField_def)
  have v: "toFixed1 demoEnv (parseFloat demoEnv (jsOr (JNum (Fin (3 / 10))) (JNum (Fin 0)))) =
      units ''0.3''"
    by code_simp
  show ?thesis
    using change_event_commits_formatted[OF x s r, of demoEnv] v s r by auto
qed

text \<open>
  C5 as written fails at the Number NaN, which is not \<^verbatim>\<open>null\<close>: the callback commits
  \<^verbatim>\<open>"0.0"\<close>, while NaN parsed as a float and formatted is \<^verbatim>\<open>"NaN"\<close>.
\<close>

theorem change_event_counterexample:
  "fieldValue (stateOf (sliderCallback demoEnv (JNum NaN)
       (openedField 10 (demoField (JStr (units ''0.5'')))))) = units ''0.0'' \<and>
   toFixed1 demoEnv (parseFloat demoEnv (JNum NaN)) = units ''NaN''"
  by code_simp

subsection \<open>Disposal and the listeners\<close>

text \<open>
  Claim C2. For a field on which \<^verbatim>\<open>showEditor_\<close> was never called (it has no slider),
  \<^verbatim>\<open>dispose\<close> completes without a throw, a second \<^verbatim>\<open>dispose\<close> completes as well and
  leaves the page exactly as the first left it, and the field is disposed.
\<close>

theorem dispose_never_opened:
  assumes "fieldAt w fid = Some f" and "valueSlider f = None"
  shows "\<exists>w'. dispose fid w = Done w' \<and> dispose fid w' = Done w' \<and>
           map_option disposed (fieldAt w' fid) = Some True"
  using assms
  by (auto simp: dispose_def Field_dispose_def putField_def setGroup_def unlistenByKey_def
      clearContent_def hideWithoutAnimation_def Let_def split: option.splits)

text \<open>Field 1 of the sample page was never opened.\<close>

theorem dispose_never_opened_witness:
  "fieldAt demoWorld 1 = Some (demoField (JNum (Fin 0))) \<and>
   valueSlider (demoField (JNum (Fin 0))) = None \<and>
   (\<exists>w'. dispose 1 demoWorld = Done w' \<and> dispose 1 w' = Done w' \<and>
      map_option disposed (fieldAt w' 1) = Some True)"
proof -
  have v: "valueSlider (demoField (JNum (Fin 0))) = None"
    by (simp add: demoField_def FieldNumberSlider_def addArgType_def Field_constructor_def)
  show ?thesis
    using dispose_never_opened[OF demo_field1 v] demo_field1 v by simp
qed

text \<open>
  Claim C3. After \<^verbatim>\<open>showEditor_\<close> twice in succession on a field (however the calls
  end: they complete, or throw at the category lookup or in a callback), the field's
  slider is the one the second call built, exactly one listener is registered on it, the
  class-level key is that listener's, and a change event of that slider, whatever its
  value, does what one run of the callback on the field does: the committed-change path
  runs once. The listener of the first opening is still in the registry, on the slider
  that was discarded, where no event of the current slider reaches it.
\<close>

theorem reopen_single_listener:
  assumes "fieldAt w fid = Some f" and "allocated w"
  shows "\<exists>f2 s. fieldAt (stateOf (showEditor e fid (stateOf (showEditor e fid w)))) fid = Some f2 \<and>
           valueSlider f2 = Some s \<and> sliderId s = nextId w + 4 \<and>
           listenersOn (sliderId s) (stateOf (showEditor e fid (stateOf (showEditor e fid w)))) =
             [\<lparr>lkey = nextId w + 5, target = sliderId s, self = fid\<rparr>] \<and>
           numberKey (stateOf (showEditor e fid (stateOf (showEditor e fid w)))) =
             Some (nextId w + 5) \<and>
           listeners (stateOf (showEditor e fid (stateOf (showEditor e fid w)))) =
             listeners w @ [\<lparr>lkey = nextId w + 2, target = Suc (nextId w), self = fid\<rparr>,
                            \<lparr>lkey = nextId w + 5, target = sliderId s, self = fid\<rparr>] \<and>
           dispatchChange e (sliderId s) x
               (stateOf (showEditor e fid (stateOf (showEditor e fid w)))) =
             onField fid (sliderCallback e x)
               (stateOf (showEditor e fid (stateOf (showEditor e fid w))))"
proof -
  let ?w1 = "stateOf (showEditor e fid w)"
  let ?w2 = "stateOf (showEditor e fid ?w1)"
  obtain f1 where f1: "fieldAt ?w1 fid = Some f1"
    using showEditor_slider[OF assms(1)] by blast
  obtain f2 s where f2: "fieldAt ?w2 fid = Some f2"
    and s: "valueSlider f2 = Some s" "sliderId s = Suc (nextId ?w1)"
    using showEditor_slider[OF f1] by blast
  have s2: "sliderId s = nextId w + 4"
    by (simp add: s(2) showEditor_page(2)[OF assms(1)])
  have old: "\<forall>l \<in> set (listeners w). target l \<noteq> nextId w + 4"
    using assms(2) by (auto simp: allocated_def list_all_iff)
  have ls: "listenersOn (sliderId s) ?w2 = [\<lparr>lkey = nextId w + 5, target = sliderId s, self = fid\<rparr>]"
    using old
    by (simp add: listenersOn_def showEditor_page(1)[OF f1] showEditor_page(1)[OF assms(1)]
        showEditor_page(2)[OF assms(1)] s2 filter_empty_conv)
  have "dispatchChange e (sliderId s) x ?w2 = onField fid (sliderCallback e x) ?w2"
    by (simp add: dispatchChange_def ls split: outcome.splits)
  with f2 s(1) s2 ls show ?thesis
    by (simp add: showEditor_page(3)[OF f1] showEditor_page(2)[OF assms(1)]
        showEditor_page(1)[OF f1] showEditor_page(1)[OF assms(1)])
qed

text \<open>Field 0 of the sample page, opened twice: sliders 11 and 14, keys 12 and 15.\<close>

theorem reopen_single_listener_witness:
  "allocated demoWorld \<and>
   (\<exists>f2 s. fieldAt (stateOf (showEditor demoEnv 0 (stateOf (showEditor demoEnv 0 demoWorld)))) 0
              = Some f2 \<and>
      valueSlider f2 = Some s \<and>
      listenersOn (sliderId s)
          (stateOf (showEditor demoEnv 0 (stateOf (showEditor demoEnv 0 demoWorld)))) =
        [\<lparr>lkey = 15, target = 14, self = 0\<rparr>] \<and>
      dispatchChange demoEnv (sliderId s) (JNum (Fin (3 / 10)))
          (stateOf (showEditor demoEnv 0 (stateOf (showEditor demoEnv 0 demoWorld)))) =
        onField 0 (sliderCallback demoEnv (JNum (Fin (3 / 10))))
          (stateOf (showEditor demoEnv 0 (stateOf (showEditor demoEnv 0 demoWorld)))))"
  using reopen_single_listener[OF demo_field0 demo_allocated, of demoEnv "JNum (Fin (3 / 10))"]
    demo_allocated
  by (auto simp: demo_page)

text \<open>
  Claim C10. The key \<^verbatim>\<open>valueChangeEventKey_\<close> is one variable of the page, not of a field.
  For two fields \<open>a\<close> and \<open>b\<close>, after \<^verbatim>\<open>showEditor_\<close> of \<open>a\<close> and then of \<open>b\<close>: the
  key held the key of \<open>a\<close>'s listener in between and holds the key of \<open>b\<close>'s listener
  now; that key belongs to \<open>b\<close>'s listener alone and \<open>a\<close>'s key to \<open>a\<close>'s listener
  alone; and \<open>a\<close>'s listener is still registered after any sequence of disposals of any
  fields.
\<close>

theorem shared_key_overwritten:
  assumes "fieldAt w a = Some fa" and "fieldAt w b = Some fb" and "a \<noteq> b" and "allocated w"
  shows "numberKey (stateOf (showEditor e a w)) = Some (nextId w + 2) \<and>
         numberKey (stateOf (showEditor e b (stateOf (showEditor e a w)))) = Some (nextId w + 5) \<and>
         filter (\<lambda>l. lkey l = nextId w + 5)
             (listeners (stateOf (showEditor e b (stateOf (showEditor e a w))))) =
           [\<lparr>lkey = nextId w + 5, target = nextId w + 4, self = b\<rparr>] \<and>
         filter (\<lambda>l. lkey l = nextId w + 2)
             (listeners (stateOf (showEditor e b (stateOf (showEditor e a w))))) =
           [\<lparr>lkey = nextId w + 2, target = Suc (nextId w), self = a\<rparr>] \<and>
         \<lparr>lkey = nextId w + 2, target = Suc (nextId w), self = a\<rparr>
           \<in> set (listeners (disposeMany cs
                   (stateOf (showEditor e b (stateOf (showEditor e a w))))))"
proof -
  let ?w1 = "stateOf (showEditor e a w)"
  let ?w2 = "stateOf (showEditor e b ?w1)"
  let ?la = "\<lparr>lkey = nextId w + 2, target = Suc (nextId w), self = a\<rparr>"
  obtain fb' where b1: "fieldAt ?w1 b = Some fb'"
    using showEditor_page(7)[OF assms(1), of b e] assms(2) by auto
  have ls: "listeners ?w2 = listeners w @ [?la, \<lparr>lkey = nextId w + 5, target = nextId w + 4, self = b\<rparr>]"
    by (simp add: showEditor_page(1)[OF b1] showEditor_page(1)[OF assms(1)]
        showEditor_page(2)[OF assms(1)])
  have old: "\<forall>l \<in> set (listeners w). lkey l < nextId w"
    using assms(4) by (auto simp: allocated_def list_all_iff)
  have ck: "colourKey ?w2 \<noteq> Some (lkey ?la)"
    using assms(4)
    by (auto simp: showEditor_page(4)[OF b1] showEditor_page(4)[OF assms(1)] allocated_def
        split: option.splits)
  have mem: "?la \<in> set (listeners ?w2)" by (simp add: ls)
  have f5: "filter (\<lambda>l. lkey l = nextId w + 5) (listeners w) = []"
    and f2: "filter (\<lambda>l. lkey l = nextId w + 2) (listeners w) = []"
    using old by (auto simp: filter_empty_conv)
  show ?thesis
    using disposeMany_keeps[OF mem ck, of cs] f5 f2
    by (simp add: ls showEditor_page(3)[OF b1] showEditor_page(3)[OF assms(1)]
        showEditor_page(2)[OF assms(1)])
qed

text \<open>Fields 0 and 1 of the sample page, then three disposals.\<close>

theorem shared_key_overwritten_witness:
  "(0::nat) \<noteq> 1 \<and> allocated demoWorld \<and>
   numberKey (stateOf (showEditor demoEnv 0 demoWorld)) = Some 12 \<and>
   numberKey (stateOf (showEditor demoEnv 1 (stateOf (showEditor demoEnv 0 demoWorld)))) = Some 15 \<and>
   \<lparr>lkey = 12, target = 11, self = 0\<rparr>
     \<in> set (listeners (disposeMany [0, 1, 0]
             (stateOf (showEditor demoEnv 1 (stateOf (showEditor demoEnv 0 demoWorld))))))"
proof -
  have ne: "(0::nat) \<noteq> 1" by simp
  show ?thesis
    using shared_key_overwritten[OF demo_field0 demo_field1 ne demo_allocated, of demoEnv "[0, 1, 0]"]
      demo_allocated
    by (simp add: demo_page)
qed

subsection \<open>Construction and the value\<close>

text \<open>
  Claim C4, as the code has it. The claim reads: a numeric initial value \<open>v\<close> gives
  \<^verbatim>\<open>String(v)\<close>, an absent or non-numeric one gives \<^verbatim>\<open>"0"\<close>. The guard is
  \<^verbatim>\<open>opt_value && !isNaN(opt_value)\<close>. So: when \<open>v\<close> is absent (\<^verbatim>\<open>undefined\<close>, \<^verbatim>\<open>null\<close>), the
  empty string, or does not cast to a number, the value is \<^verbatim>\<open>"0"\<close>; in every other case
  (a Number, or a non-empty string that casts to a number, a blank string among them) it
  is \<^verbatim>\<open>String(v)\<close>. For the Number 0 the two agree.
\<close>

theorem constructor_value:
  "(v = JUndefined \<or> v = JNull \<or> v = JStr [] \<or> jsIsNaN e v \<longrightarrow>
      fieldValue (FieldNumberSlider e v mn mx pr vd) = units ''0'') \<and>
   (v \<noteq> JUndefined \<and> v \<noteq> JNull \<and> v \<noteq> JStr [] \<and> \<not> jsIsNaN e v \<longrightarrow>
      fieldValue (FieldNumberSlider e v mn mx pr vd) = jsString e v)"
proof (cases v)
  case (JNum n)
  then show ?thesis
    by (cases n)
      (auto simp: FieldNumberSlider_def addArgType_def Field_constructor_def jsIsNaN_def
        units_def)
qed (auto simp: FieldNumberSlider_def addArgType_def Field_constructor_def jsIsNaN_def)

text \<open>
  The string \<^verbatim>\<open>abc\<close> does not cast to a number; \<^verbatim>\<open>0.5\<close> does, and so does the string
  of one no-break space (U+00A0), which is white space to \<^verbatim>\<open>isNaN\<close> and is kept.
\<close>

theorem constructor_value_witness:
  "jsIsNaN demoEnv (JStr (units ''abc'')) \<and>
   fieldValue (FieldNumberSlider demoEnv (JStr (units ''abc'')) JUndefined JUndefined JUndefined
                 None) = units ''0'' \<and>
   JStr (units ''0.5'') \<noteq> JUndefined \<and> JStr (units ''0.5'') \<noteq> JNull \<and>
   JStr (units ''0.5'') \<noteq> JStr [] \<and> \<not> jsIsNaN demoEnv (JStr (units ''0.5'')) \<and>
   fieldValue (FieldNumberSlider demoEnv (JStr (units ''0.5'')) JUndefined JUndefined JUndefined
                 None) = units ''0.5'' \<and>
   JStr [0xA0] \<noteq> JUndefined \<and> JStr [0xA0] \<noteq> JNull \<and> JStr [0xA0] \<noteq> JStr [] \<and>
   \<not> jsIsNaN demoEnv (JStr [0xA0]) \<and>
   fieldValue (FieldNumberSlider demoEnv (JStr [0xA0]) JUndefined JUndefined JUndefined None) =
     [0xA0]"
proof -
  have a: "jsIsNaN demoEnv (JStr (units ''abc''))" by code_simp
  have b: "\<not> jsIsNaN demoEnv (JStr (units ''0.5''))" by code_simp
  have c: "\<not> jsIsNaN demoEnv (JStr [0xA0])" by code_simp
  have d: "units ''0.5'' \<noteq> []" by (simp add: units_def)
  show ?thesis
    using constructor_value[of "JStr (units ''abc'')" demoEnv JUndefined JUndefined JUndefined None]
      constructor_value[of "JStr (units ''0.5'')" demoEnv JUndefined JUndefined JUndefined None]
      constructor_value[of "JStr [0xA0]" demoEnv JUndefined JUndefined JUndefined None] a b c d
    by simp
qed

text \<open>
  C4 as written fails, whichever way a string without digits is classed: the empty string
  and the string of one blank both cast to the number 0; the first is replaced by
  \<^verbatim>\<open>"0"\<close>, which is not \<^verbatim>\<open>String(v)\<close>, and the second is kept, which is not \<^verbatim>\<open>"0"\<close>.
\<close>

theorem constructor_value_counterexample:
  "toNumber demoEnv (JStr []) = Fin 0 \<and> \<not> jsIsNaN demoEnv (JStr []) \<and>
   fieldValue (FieldNumberSlider demoEnv (JStr []) JUndefined JUndefined JUndefined None) =
     units ''0'' \<and>
   jsString demoEnv (JStr []) = [] \<and>
   toNumber demoEnv (JStr (units '' '')) = Fin 0 \<and> \<not> jsIsNaN demoEnv (JStr (units '' '')) \<and>
   fieldValue (FieldNumberSlider demoEnv (JStr (units '' '')) JUndefined JUndefined JUndefined
                 None) = units '' ''"
  by code_simp

text \<open>
  Claim C7, as the code has it. The claim reads: at every point of its lifetime the field's
  value is a string coercible to a finite number, and an invalid value at construction falls
  back to 0. The constructor's guard is \<^verbatim>\<open>!isNaN\<close>, which an infinity passes. So, on a host
  that is sound: the value after construction casts to a Number other than NaN (it may be
  an infinity); a value that is falsy or does not cast to a number falls back to
  \<^verbatim>\<open>"0"\<close>; and on a page where every field's value casts to a Number other than NaN,
  that still holds of every field after any sequence of constructions, openings (with
  the commits that the synchronisation of the slider causes, whatever the slider library
  does with the values handed to it), disposals and slider change events whose values
  are Numbers, \<^verbatim>\<open>null\<close> or \<^verbatim>\<open>undefined\<close>.
\<close>

theorem value_numeric_for_life:
  assumes "hostSound e"
  shows "\<not> jsIsNaN e (JStr (fieldValue (FieldNumberSlider e v mn mx pr vd))) \<and>
         (\<not> truthy v \<or> jsIsNaN e v \<longrightarrow>
            fieldValue (FieldNumberSlider e v mn mx pr vd) = units ''0'') \<and>
         ((\<forall>g f. fieldAt w g = Some f \<longrightarrow> \<not> jsIsNaN e (JStr (fieldValue f))) \<and>
          list_all sliderAction as \<and> fieldAt (performAll e as w) fid = Some f' \<longrightarrow>
            \<not> jsIsNaN e (JStr (fieldValue f')))"
proof -
  have a: "\<not> truthy v \<or> jsIsNaN e v \<longrightarrow>
      fieldValue (FieldNumberSlider e v mn mx pr vd) = units ''0''"
    by (auto simp: FieldNumberSlider_def addArgType_def Field_constructor_def)
  have b: "\<not> jsIsNaN e (JStr (fieldValue f'))"
    if "\<forall>g f. fieldAt w g = Some f \<longrightarrow> \<not> jsIsNaN e (JStr (fieldValue f))"
      and "list_all sliderAction as" and "fieldAt (performAll e as w) fid = Some f'"
  proof -
    have "valuesNumeric e w" using that(1) by (simp add: valuesNumeric_def numericText_def)
    from performAll_numeric[OF assms that(2) this] that(3) show ?thesis
      by (simp add: valuesNumeric_def numericText_def)
  qed
  from constructor_numeric[OF assms, of v mn mx pr vd] a b show ?thesis
    by (simp add: numericText_def)
qed

text \<open>
  The sample host is sound. On the sample page field 1 holds \<^verbatim>\<open>"0"\<close>; the opening
  commits \<^verbatim>\<open>"0.0"\<close>, the change to 0.3 commits \<^verbatim>\<open>"0.3"\<close>, and after the \<^verbatim>\<open>null\<close> event,
  the disposal and the NaN event it holds \<^verbatim>\<open>"0.0"\<close>; the field constructed from
  \<^verbatim>\<open>Infinity\<close> holds \<^verbatim>\<open>"Infinity"\<close>.
\<close>

theorem value_numeric_for_life_witness:
  "hostSound demoEnv \<and> list_all sliderAction demoActions \<and>
   map_option fieldValue (fieldAt demoWorld 1) = Some (units ''0'') \<and>
   map_option fieldValue (fieldAt (performAll demoEnv (take 2 demoActions) demoWorld) 1) =
     Some (units ''0.0'') \<and>
   map_option fieldValue (fieldAt (performAll demoEnv (take 3 demoActions) demoWorld) 1) =
     Some (units ''0.3'') \<and>
   (\<exists>f'. fieldAt (performAll demoEnv demoActions demoWorld) 1 = Some f' \<and>
      fieldValue f' = units ''0.0'' \<and> \<not> jsIsNaN demoEnv (JStr (fieldValue f'))) \<and>
   (\<exists>f'. fieldAt (performAll demoEnv demoActions demoWorld) 3 = Some f' \<and>
      fieldValue f' = units ''Infinity'' \<and> \<not> jsIsNaN demoEnv (JStr (fieldValue f'))) \<and>
   fieldValue (FieldNumberSlider demoEnv (JStr (units ''abc'')) JUndefined JUndefined JUndefined
                 None) = units ''0''"
proof -
  have la: "list_all sliderAction demoActions"
    by (simp add: demoActions_def sliderValue_def)
  have p2: "map_option fieldValue (fieldAt (performAll demoEnv (take 2 demoActions) demoWorld) 1) =
      Some (units ''0.0'')"
    by code_simp
  have p3: "map_option fieldValue (fieldAt (performAll demoEnv (take 3 demoActions) demoWorld) 1) =
      Some (units ''0.3'')"
    by code_simp
  have v1: "map_option fieldValue (fieldAt (performAll demoEnv demoActions demoWorld) 1) =
      Some (units ''0.0'')"
    by code_simp
  have v3: "map_option fieldValue (fieldAt (performAll demoEnv demoActions demoWorld) 3) =
      Some (units ''Infinity'')"
    by code_simp
  have n: "jsIsNaN demoEnv (JStr (units ''abc''))" "\<not> jsIsNaN demoEnv (JStr (units ''0.5''))"
    "\<not> jsIsNaN demoEnv (JStr (units ''0''))"
    by code_simp+
  have w: "\<forall>g f. fieldAt demoWorld g = Some f \<longrightarrow> \<not> jsIsNaN demoEnv (JStr (fieldValue f))"
    using n demo_value0 demo_value_half
    by (auto simp: demoWorld_def demoBounded_def FieldNumberSlider_def addArgType_def
        Field_constructor_def split: if_splits)
  from v1 obtain f1 where f1: "fieldAt (performAll demoEnv demoActions demoWorld) 1 = Some f1"
    "fieldValue f1 = units ''0.0''" by auto
  from v3 obtain f3 where f3: "fieldAt (performAll demoEnv demoActions demoWorld) 3 = Some f3"
    "fieldValue f3 = units ''Infinity''" by auto
  have o: "map_option fieldValue (fieldAt demoWorld 1) = Some (units ''0'')"
    by (simp only: demo_field1 option.map demo_value0)
  from value_numeric_for_life[OF demo_hostSound, of "JStr (units ''abc'')" JUndefined JUndefined
      JUndefined None demoWorld demoActions 1 f1]
    value_numeric_for_life[OF demo_hostSound, of "JStr (units ''abc'')" JUndefined JUndefined
      JUndefined None demoWorld demoActions 3 f3]
    n(1) w la f1 f3 p2 p3 o demo_hostSound
  show ?thesis by auto
qed

text \<open>
  C7 as written fails: constructed from the string \<^verbatim>\<open>Infinity\<close> the field holds
  \<^verbatim>\<open>"Infinity"\<close>, which casts to the infinity, not to a finite number; a change event
  with the value \<^verbatim>\<open>Infinity\<close> commits the same string.
\<close>

theorem value_numeric_counterexample:
  "fieldValue (FieldNumberSlider demoEnv (JStr (units ''Infinity'')) JUndefined JUndefined
                 JUndefined None) = units ''Infinity'' \<and>
   toNumber demoEnv (JStr (fieldValue
      (FieldNumberSlider demoEnv (JStr (units ''Infinity'')) JUndefined JUndefined JUndefined
         None))) = PInf \<and>
   fieldValue (stateOf (sliderCallback demoEnv (JNum PInf)
      (openedField 10 (demoField (JStr (units ''0.5'')))))) = units ''Infinity''"
  by code_simp

text \<open>
  Claim C9. For every initial value and validator and any two choices of \<^verbatim>\<open>opt_min\<close>,
  \<^verbatim>\<open>opt_max\<close>, \<^verbatim>\<open>opt_precision\<close>: the two fields hold the same value; they are the same
  field once the restrictor is set aside, and the restrictor is what
  \<^verbatim>\<open>getNumRestrictor\<close> makes of the three; and attached to the same block on the same
  page and opened, they get the same slider (its settings, the values it was handed and
  the values it took).
\<close>

theorem bounds_noninterference:
  "fieldValue (FieldNumberSlider e v mn mx pr vd) =
     fieldValue (FieldNumberSlider e v mn' mx' pr' vd) \<and>
   (FieldNumberSlider e v mn mx pr vd)\<lparr>restrictor := r\<rparr> =
     (FieldNumberSlider e v mn' mx' pr' vd)\<lparr>restrictor := r\<rparr> \<and>
   restrictor (FieldNumberSlider e v mn mx pr vd) = getNumRestrictor e mn mx pr \<and>
   map_option valueSlider
     (fieldAt (stateOf (showEditor e fid
        (putField fid ((FieldNumberSlider e v mn mx pr vd)\<lparr>sourceBlock := sb\<rparr>) w))) fid) =
   map_option valueSlider
     (fieldAt (stateOf (showEditor e fid
        (putField fid ((FieldNumberSlider e v mn' mx' pr' vd)\<lparr>sourceBlock := sb\<rparr>) w))) fid)"
proof -
  let ?f = "(FieldNumberSlider e v mn mx pr vd)\<lparr>sourceBlock := sb\<rparr>"
  let ?g = "(FieldNumberSlider e v mn' mx' pr' vd)\<lparr>sourceBlock := sb\<rparr>"
  let ?h = "overFields forgetRestrictor"
  have "forgetRestrictor ?f = forgetRestrictor ?g"
    by (simp add: forgetRestrictor_def FieldNumberSlider_def addArgType_def Field_constructor_def)
  then have "?h (putField fid ?f w) = ?h (putField fid ?g w)"
    by (simp add: overFields_putField)
  then have "mapOutcome ?h (showEditor e fid (putField fid ?f w)) =
             mapOutcome ?h (showEditor e fid (putField fid ?g w))"
    by (simp add: showEditor_forget[symmetric])
  then have "?h (stateOf (showEditor e fid (putField fid ?f w))) =
             ?h (stateOf (showEditor e fid (putField fid ?g w)))"
    by (simp add: stateOf_mapOutcome[symmetric])
  from arg_cong[OF this, of "\<lambda>w. map_option valueSlider (fieldAt w fid)"]
  have "map_option valueSlider (fieldAt (stateOf (showEditor e fid (putField fid ?f w))) fid) =
        map_option valueSlider (fieldAt (stateOf (showEditor e fid (putField fid ?g w))) fid)"
    by (simp add: overFields_at option.map_comp comp_def forgetRestrictor_def)
  then show ?thesis
    by (simp add: FieldNumberSlider_def addArgType_def Field_constructor_def)
qed

text \<open>No bounds against the bounds 5, 10 and precision 1.\<close>

theorem bounds_noninterference_witness:
  "fieldValue (FieldNumberSlider demoEnv (JStr (units ''0.5'')) JUndefined JUndefined JUndefined
                 None) =
     fieldValue (FieldNumberSlider demoEnv (JStr (units ''0.5'')) (JNum (Fin 5)) (JNum (Fin 10))
                   (JNum (Fin 1)) None) \<and>
   fieldValue (FieldNumberSlider demoEnv (JStr (units ''0.5'')) JUndefined JUndefined JUndefined
                 None) = units ''0.5''"
  using bounds_noninterference[where e = demoEnv and v = "JStr (units ''0.5'')" and mn = JUndefined
      and mx = JUndefined and pr = JUndefined and vd = None and mn' = "JNum (Fin 5)"
      and mx' = "JNum (Fin 10)" and pr' = "JNum (Fin 1)"]
    demo_value_half
  by (simp add: demoField_def)

subsection \<open>Activation\<close>

text \<open>
  Claim C6. When \<^verbatim>\<open>showEditor_\<close> completes, \<^verbatim>\<open>updateSliderHandles_\<close> has run on the new
  slider: with \<open>num\<close> the field's value parsed as a float (read before the slider is
  touched, so the commits that the calls cause do not alter it), the slider was handed 1
  and then 0 when \<open>num\<close> is 0, and \<open>num\<close> once otherwise; in both cases the last value
  it was handed is \<open>num\<close>.
\<close>

theorem zero_workaround:
  assumes "fieldAt w fid = Some f" and "showEditor e fid w = Done w'"
  shows "\<exists>f' s'. fieldAt w' fid = Some f' \<and> valueSlider f' = Some s' \<and>
           setValueCalls s' =
             (if parseFloat e (JStr (getValue f)) = Fin 0 then [Fin 1, Fin 0]
              else [parseFloat e (JStr (getValue f))]) \<and>
           last (setValueCalls s') = parseFloat e (JStr (getValue f))"
proof -
  from showEditor_calls[OF assms] obtain f' s' where
    "fieldAt w' fid = Some f'" "valueSlider f' = Some s'"
    "setValueCalls s' =
       (if parseFloat e (JStr (getValue f)) = Fin 0 then [Fin 1, Fin 0]
        else [parseFloat e (JStr (getValue f))])"
    by blast
  then show ?thesis by auto
qed

text \<open>
  Field 1 of the sample page holds \<^verbatim>\<open>"0"\<close>. Its slider is handed 1 and 0, takes both
  values, ends at 0, and the two change events leave the field with \<^verbatim>\<open>"0.0"\<close>.
\<close>

theorem zero_workaround_witness:
  "fieldAt demoWorld 1 = Some (demoField (JNum (Fin 0))) \<and>
   showEditor demoEnv 1 demoWorld = Done (stateOf (showEditor demoEnv 1 demoWorld)) \<and>
   (\<exists>f' s'. fieldAt (stateOf (showEditor demoEnv 1 demoWorld)) 1 = Some f' \<and>
      valueSlider f' = Some s' \<and> setValueCalls s' = [Fin 1, Fin 0] \<and>
      last (setValueCalls s') = Fin 0) \<and>
   map_option (\<lambda>f. map_option changes (valueSlider f))
     (fieldAt (stateOf (showEditor demoEnv 1 demoWorld)) 1) = Some (Some [Fin 1, Fin 0]) \<and>
   map_option fieldValue (fieldAt (stateOf (showEditor demoEnv 1 demoWorld)) 1) =
     Some (units ''0.0'')"
proof -
  have c: "map_option (\<lambda>f. map_option changes (valueSlider f))
     (fieldAt (stateOf (showEditor demoEnv 1 demoWorld)) 1) = Some (Some [Fin 1, Fin 0])"
    "map_option fieldValue (fieldAt (stateOf (showEditor demoEnv 1 demoWorld)) 1) =
     Some (units ''0.0'')"
    by code_simp+
  have "completes (showEditor demoEnv 1 demoWorld)" by code_simp
  then have h2: "showEditor demoEnv 1 demoWorld = Done (stateOf (showEditor demoEnv 1 demoWorld))"
    by (rule completes_Done)
  have pf: "parseFloat demoEnv (JStr (getValue (demoField (JNum (Fin 0))))) = Fin 0"
    unfolding getValue_def demo_value0 by code_simp
  show ?thesis
    using zero_workaround[OF demo_field1 h2] pf demo_field1 h2 c by simp
qed

text \<open>
  Claim C8. On every \<^verbatim>\<open>showEditor_\<close> of a field, however the call ends (it completes, or
  throws at the category lookup or in a callback), and whatever the field was constructed
  with: the content of the
  drop-down is the new label and the new slider and nothing else (what was there before is
  gone), and the field's slider has minimum -1, maximum 1, step 0.1, unit increment 0.1
  and move-to-point enabled.
\<close>

theorem showEditor_fixed_slider:
  assumes "fieldAt w fid = Some f"
  shows "\<exists>f' s. fieldAt (stateOf (showEditor e fid w)) fid = Some f' \<and>
           valueSlider f' = Some s \<and>
           minimum s = Some (- 1) \<and> maximum s = Some 1 \<and> step s = Some (1 / 10) \<and>
           unitIncrement s = Some (1 / 10) \<and> moveToPointEnabled s = Some True \<and>
           content (stateOf (showEditor e fid w)) =
             [LabelDom (VALUE_LABEL e) (nextId w), SliderDom (sliderId s)]"
  using showEditor_slider[OF assms, of e] showEditor_page(5)[OF assms, of e] by auto

text \<open>
  Field 2 of the sample page was constructed with minimum 5, maximum 10 and precision 1;
  it is opened after field 0, whose label and slider are in the drop-down by then.
\<close>

theorem showEditor_fixed_slider_witness:
  "restrictor demoBounded = getNumRestrictor demoEnv (JNum (Fin 5)) (JNum (Fin 10)) (JNum (Fin 1)) \<and>
   content (stateOf (showEditor demoEnv 0 demoWorld)) = [LabelDom ''Value'' 10, SliderDom 11] \<and>
   (\<exists>f' s. fieldAt (stateOf (showEditor demoEnv 2 (stateOf (showEditor demoEnv 0 demoWorld)))) 2
              = Some f' \<and>
      valueSlider f' = Some s \<and>
      minimum s = Some (- 1) \<and> maximum s = Some 1 \<and> step s = Some (1 / 10) \<and>
      unitIncrement s = Some (1 / 10) \<and> moveToPointEnabled s = Some True \<and>
      content (stateOf (showEditor demoEnv 2 (stateOf (showEditor demoEnv 0 demoWorld)))) =
        [LabelDom ''Value'' 13, SliderDom (sliderId s)])"
proof -
  obtain f2 where h: "fieldAt (stateOf (showEditor demoEnv 0 demoWorld)) 2 = Some f2"
    using showEditor_page(7)[OF demo_field0, of 2 demoEnv] demo_field2 by auto
  have n: "nextId (stateOf (showEditor demoEnv 0 demoWorld)) = 13"
    by (simp add: showEditor_page(2)[OF demo_field0] demo_page)
  have v: "VALUE_LABEL demoEnv = ''Value''" by (simp add: demoEnv_def)
  have c: "content (stateOf (showEditor demoEnv 0 demoWorld)) = [LabelDom ''Value'' 10, SliderDom 11]"
    by (simp add: showEditor_page(5)[OF demo_field0] demo_page v)
  have r: "restrictor demoBounded =
      getNumRestrictor demoEnv (JNum (Fin 5)) (JNum (Fin 10)) (JNum (Fin 1))"
    by (simp add: demoBounded_def FieldNumberSlider_def addArgType_def Field_constructor_def)
  show ?thesis
    using showEditor_fixed_slider[OF h, of demoEnv] n c r v by simp
qed

end
